theory Spec2Isabelle
  imports Complex_Main "HOL-Library.Sublist"
begin

section \<open>Python strings and the runtime tables they depend on\<close>

text \<open>
  A Python \<open>str\<close> is a sequence of Unicode code points, so it is modelled as a list of
  naturals (the Hebrew letters of the substitution table lie at 1488..1514).
  What \<open>\w\<close>, \<open>\s\<close>, \<open>str.strip\<close>, \<open>str.lower\<close> and \<open>int\<close> do on ASCII is fixed below;
  beyond ASCII they consult the interpreter's Unicode database, which is not part of the
  repository and is therefore a parameter of every function that needs it.
\<close>

type_synonym pystr = "nat list"

record py_runtime =
  uni_alnum :: "nat \<Rightarrow> bool"
  uni_space :: "nat \<Rightarrow> bool"
  uni_decimal :: "nat \<Rightarrow> nat option"
  str_lower :: "pystr \<Rightarrow> pystr"
  int_max_str_digits :: nat

definition py_isspace :: "py_runtime \<Rightarrow> nat \<Rightarrow> bool" where
  \<comment> \<open>\<open>str.isspace\<close> of one character, which is also the class \<open>\s\<close> of \<open>re\<close> on a \<open>str\<close> pattern\<close>
  "py_isspace u c =
     (if c < 128 then (9 \<le> c \<and> c \<le> 13) \<or> (28 \<le> c \<and> c \<le> 32) else uni_space u c)"

definition py_isword :: "py_runtime \<Rightarrow> nat \<Rightarrow> bool" where
  \<comment> \<open>the class \<open>\w\<close>: alphanumeric or underscore\<close>
  "py_isword u c =
     (if c < 128
      then (48 \<le> c \<and> c \<le> 57) \<or> (65 \<le> c \<and> c \<le> 90) \<or> (97 \<le> c \<and> c \<le> 122) \<or> c = 95
      else uni_alnum u c)"

definition py_strip :: "py_runtime \<Rightarrow> pystr \<Rightarrow> pystr" where
  \<comment> \<open>\<open>s.strip()\<close>: whitespace removed at both ends\<close>
  "py_strip u s = rev (dropWhile (py_isspace u) (rev (dropWhile (py_isspace u) s)))"

function replace_scan :: "pystr \<Rightarrow> pystr \<Rightarrow> pystr \<Rightarrow> pystr" where
  "replace_scan old new [] = []"
| "replace_scan old new (c # cs) =
     (if old \<noteq> [] \<and> prefix old (c # cs)
      then new @ replace_scan old new (drop (length old) (c # cs))
      else c # replace_scan old new cs)"
  by pat_completeness auto
termination
  by (relation "measure (\<lambda>(old, new, s). length s)") (auto simp: Suc_le_eq)

definition py_replace :: "pystr \<Rightarrow> pystr \<Rightarrow> pystr \<Rightarrow> pystr" where
  \<comment> \<open>\<open>s.replace(old, new)\<close>: every occurrence found by a left-to-right scan, none overlapping;
      an empty \<open>old\<close> matches before every character and at the end\<close>
  "py_replace old new s =
     (if old = [] then new @ concat (map (\<lambda>c. c # new) s) else replace_scan old new s)"

definition sub_nonword :: "py_runtime \<Rightarrow> pystr \<Rightarrow> pystr" where
  \<comment> \<open>\<open>re.sub(r'[^\w\s]', ' ', s)\<close>\<close>
  "sub_nonword u s = map (\<lambda>c. if py_isword u c \<or> py_isspace u c then c else 32) s"

function sub_spaces :: "py_runtime \<Rightarrow> pystr \<Rightarrow> pystr" where
  \<comment> \<open>\<open>re.sub(r'\s+', ' ', s)\<close>: each maximal run of whitespace becomes one space\<close>
  "sub_spaces u [] = []"
| "sub_spaces u (c # cs) =
     (if py_isspace u c then 32 # sub_spaces u (dropWhile (py_isspace u) cs)
      else c # sub_spaces u cs)"
  by pat_completeness auto
termination
  by (relation "measure (\<lambda>(u, s). length s)") (auto simp: less_Suc_eq_le length_dropWhile_le)

section \<open>Query preprocessing\<close>

definition hebrew_to_english :: "(pystr \<times> pystr) list" where
  \<comment> \<open>the dict literal of \<open>preprocess_query\<close>, in insertion order (the order of iteration)\<close>
  "hebrew_to_english =
    [([1510, 39, 1488, 1496], [99, 104, 97, 116]),
     ([1510, 1488, 1496], [99, 104, 97, 116]),
     ([1489, 1493, 1496], [98, 111, 116]),
     ([1514, 1502, 1493, 1504, 1492], [105, 109, 97, 103, 101]),
     ([1514, 1502, 1493, 1504, 1493, 1514], [105, 109, 97, 103, 101]),
     ([1493, 1497, 1491, 1488, 1493], [118, 105, 100, 101, 111]),
     ([1493, 1497, 1491, 1497, 1493], [118, 105, 100, 101, 111]),
     ([1505, 1512, 1496, 1493, 1503], [118, 105, 100, 101, 111]),
     ([1496, 1511, 1505, 1496], [116, 101, 120, 116]),
     ([1499, 1514, 1497, 1489, 1492], [119, 114, 105, 116, 105, 110, 103]),
     ([1506, 1497, 1510, 1493, 1489], [100, 101, 115, 105, 103, 110]),
     ([1497, 1510, 1497, 1512, 1492],
        [103, 101, 110, 101, 114, 97, 116, 105, 111, 110, 32, 99, 114, 101, 97, 116, 101]),
     ([1495, 1497, 1504, 1502, 1497], [102, 114, 101, 101]),
     ([1489, 1495, 1497, 1504, 1501], [102, 114, 101, 101]),
     ([1489, 1514, 1513, 1500, 1493, 1501], [112, 97, 105, 100]),
     ([1506, 1512, 1497, 1499, 1492], [101, 100, 105, 116, 105, 110, 103]),
     ([1511, 1493, 1491], [99, 111, 100, 101]),
     ([1514, 1499, 1504, 1493, 1514],
        [112, 114, 111, 103, 114, 97, 109, 109, 105, 110, 103, 32, 99, 111, 100, 101]),
     ([1488, 1514, 1512], [119, 101, 98, 115, 105, 116, 101]),
     ([1500, 1493, 1490, 1493], [108, 111, 103, 111]),
     ([1502, 1493, 1505, 1497, 1511, 1492], [109, 117, 115, 105, 99]),
     ([1511, 1493, 1500], [118, 111, 105, 99, 101, 32, 97, 117, 100, 105, 111]),
     ([1514, 1512, 1490, 1493, 1501],
        [116, 114, 97, 110, 115, 108, 97, 116, 105, 111, 110]),
     ([1513, 1508, 1492], [108, 97, 110, 103, 117, 97, 103, 101])]"

definition replace_all :: "(pystr \<times> pystr) list \<Rightarrow> pystr \<Rightarrow> pystr" where
  \<comment> \<open>\<open>for hebrew, english in table.items(): query = query.replace(hebrew, english)\<close>\<close>
  "replace_all table query = fold (\<lambda>(hebrew, english) q. py_replace hebrew english q) table query"

definition preprocess_query :: "py_runtime \<Rightarrow> pystr \<Rightarrow> pystr" where
  "preprocess_query u query =
     (let query = replace_all hebrew_to_english query;
          query = sub_nonword u query;
          query = py_strip u (sub_spaces u query)
      in query)"

text \<open>
  The two regular-expression steps and the final strip, as one function; the cleaning of
  \<open>preprocess_query\<close> is this composition.
\<close>

definition clean :: "py_runtime \<Rightarrow> pystr \<Rightarrow> pystr" where
  "clean u s = py_strip u (sub_spaces u (sub_nonword u s))"

definition keeps :: "py_runtime \<Rightarrow> nat \<Rightarrow> bool" where
  \<comment> \<open>the characters the cleaning leaves in place: in \<open>\w\<close> and not in \<open>\s\<close>\<close>
  "keeps u c = (py_isword u c \<and> \<not> py_isspace u c)"

fun collapsed :: "py_runtime \<Rightarrow> pystr \<Rightarrow> bool" where
  \<comment> \<open>every whitespace character is a single space followed by a non-space\<close>
  "collapsed u [] = True"
| "collapsed u [c] = (py_isspace u c \<longrightarrow> c = 32)"
| "collapsed u (c # d # r) =
     ((py_isspace u c \<longrightarrow> c = 32 \<and> \<not> py_isspace u d) \<and> collapsed u (d # r))"

section \<open>Python built-ins used by the ranking code\<close>

datatype py_error = IndexError | ValueError | KeyError | OverflowError | ZeroDivisionError
  | AttributeError

definition ascii_digit :: "nat \<Rightarrow> bool" where
  "ascii_digit c = (48 \<le> c \<and> c \<le> 57)"

definition c_isspace :: "nat \<Rightarrow> bool" where
  \<comment> \<open>the whitespace \<open>int\<close> skips once the string is ASCII: tab, LF, VT, FF, CR, space\<close>
  "c_isspace c = ((9 \<le> c \<and> c \<le> 13) \<or> c = 32)"

definition to_ascii :: "py_runtime \<Rightarrow> nat \<Rightarrow> nat" where
  \<comment> \<open>\<open>int\<close> first maps Unicode whitespace to a space and Unicode decimal digits to ASCII
      digits; any other character beyond ASCII becomes \<open>?\<close>\<close>
  "to_ascii u c =
     (if c < 127 then c
      else if c = 127 then 63
      else if uni_space u c then 32
      else case uni_decimal u c of
             Some d \<Rightarrow> if d \<le> 9 then 48 + d else 63
           | None \<Rightarrow> 63)"

fun int_digits :: "nat \<Rightarrow> pystr \<Rightarrow> nat option" where
  \<comment> \<open>the digits after the first one: a single underscore may stand between two digits\<close>
  "int_digits acc [] = Some acc"
| "int_digits acc [c] = (if ascii_digit c then Some (10 * acc + (c - 48)) else None)"
| "int_digits acc (c # d # cs) =
     (if ascii_digit c then int_digits (10 * acc + (c - 48)) (d # cs)
      else if c = 95 \<and> ascii_digit d then int_digits (10 * acc + (d - 48)) cs
      else None)"

definition py_int :: "py_runtime \<Rightarrow> pystr \<Rightarrow> int option" where
  \<comment> \<open>\<open>int(s)\<close> in base 10; \<open>None\<close> is ValueError (a malformed literal, or more digits than
      the interpreter's limit on integer strings, 0 meaning no limit)\<close>
  "py_int u s =
     (let t = map (to_ascii u) s;
          t = rev (dropWhile c_isspace (rev (dropWhile c_isspace t)));
          neg = (case t of [] \<Rightarrow> False | c # cs \<Rightarrow> c = 45);
          body = (case t of [] \<Rightarrow> [] | c # cs \<Rightarrow> if c = 45 \<or> c = 43 then cs else t)
      in case body of
           [] \<Rightarrow> None
         | c # cs \<Rightarrow>
             if \<not> ascii_digit c then None
             else if 0 < int_max_str_digits u \<and>
                     int_max_str_digits u < length (filter ascii_digit body) then None
             else map_option (\<lambda>n. if neg then - int n else int n) (int_digits (c - 48) cs))"

text \<open>
  Floats. The scores of the index are numpy \<open>float32\<close> scalars, the popularity bonus is a
  Python \<open>float\<close>, and their sum is again a numpy scalar whose precision depends on the
  version of numpy. What the program does with them is compare them and apply three
  operations of the interpreter and of numpy, none of which is part of the repository.
  The values of all these floats are therefore elements of one linearly ordered type \<open>'s\<close>
  (NaN, which is not comparable, is left out), and the operations are parameters:
  the literal \<open>0.1\<close>, the true division of two ints with its OverflowError and
  ZeroDivisionError, and the rounded sum of a \<open>float32\<close> scalar and a Python float.
  Converting a \<open>float32\<close> with \<open>float(score)\<close> and adding the int \<open>0\<close> to it do not change
  its value.
\<close>

record 's float_ops =
  fl_tenth :: 's
  fl_truediv :: "int \<Rightarrow> int \<Rightarrow> py_error + 's"
  fl_add :: "'s \<Rightarrow> 's \<Rightarrow> 's"

definition py_getitem :: "'a list \<Rightarrow> int \<Rightarrow> py_error + 'a" where
  \<comment> \<open>\<open>xs[i]\<close>: an index from \<open>-len(xs)\<close> to \<open>-1\<close> counts from the end\<close>
  "py_getitem xs i =
     (if 0 \<le> i \<and> i < int (length xs) then Inr (xs ! nat i)
      else if - int (length xs) \<le> i \<and> i < 0 then Inr (xs ! nat (int (length xs) + i))
      else Inl IndexError)"

definition py_take :: "int \<Rightarrow> 'a list \<Rightarrow> 'a list" where
  \<comment> \<open>\<open>xs[:k]\<close>\<close>
  "py_take k xs = (if 0 \<le> k then take (nat k) xs else take (length xs - nat (- k)) xs)"

definition sort_reverse :: "('a \<Rightarrow> 'k::linorder option) \<Rightarrow> 'a list \<Rightarrow> py_error + 'a list" where
  \<comment> \<open>\<open>xs.sort(key=lambda x: x[field], reverse=True)\<close>: the list is reversed, sorted
      stably in ascending order and reversed again; a dict without the field raises KeyError\<close>
  "sort_reverse key xs =
     (if \<exists>x\<in>set xs. key x = None then Inl KeyError
      else Inr (rev (sort_key (\<lambda>x. the (key x)) (rev xs))))"

section \<open>Tool records and the engine\<close>

text \<open>
  A tool is a dict with the seven string fields read from the database; the retrieval
  functions add \<open>rank\<close>, \<open>relevance_score\<close>, \<open>final_score\<close> and \<open>pop_num\<close>, which are
  therefore optional.

  \<open>tools_data\<close> is a list of references to dict objects: \<open>heap\<close> maps a reference to the
  dict it denotes. \<open>tool.copy()\<close> yields a dict that nothing else refers to, so the functions
  that copy return their results by value; \<open>get_random_tools\<close> copies nothing and returns
  references.
\<close>

record 's tool =
  name :: pystr
  url :: pystr
  description :: pystr
  category :: pystr
  popularity :: pystr
  pricing :: pystr
  tags :: pystr
  rank :: "nat option"
  relevance_score :: "'s option"
  final_score :: "'s option"
  pop_num :: "int option"

record 's ndarray =
  nrows :: nat
  ncols :: nat
  cells :: "'s list"

record 's engine =
  heap :: "nat \<Rightarrow> 's tool"
  next_ref :: nat
  tools_data :: "nat list"
  embeddings :: "'s ndarray option"
  index :: "'s ndarray option"

definition corpus :: "'s engine \<Rightarrow> 's tool list" where
  "corpus e = map (heap e) (tools_data e)"

definition shape :: "'s ndarray \<Rightarrow> nat \<times> nat" where
  "shape m = (nrows m, ncols m)"

section \<open>search\<close>

definition popularity_bonus :: "py_runtime \<Rightarrow> 's::linorder float_ops \<Rightarrow> 's tool \<Rightarrow> 's option" where
  \<comment> \<open>\<open>None\<close> is the int \<open>0\<close> the variable starts with: it stays when the field is empty
      and when anything in the \<open>try\<close> raises\<close>
  "popularity_bonus u fl tool =
     (if popularity tool \<noteq> [] then
        (case py_int u (py_replace [44] [] (py_replace [43] [] (popularity tool))) of
           None \<Rightarrow> None
         | Some n \<Rightarrow>
             (case fl_truediv fl n 10000 of
                Inl err \<Rightarrow> None
              | Inr q \<Rightarrow> Some (min q (fl_tenth fl))))
      else None)"

definition add_bonus :: "'s float_ops \<Rightarrow> 's \<Rightarrow> 's option \<Rightarrow> 's" where
  \<comment> \<open>\<open>score + popularity_bonus\<close>: the score itself when the bonus is the int \<open>0\<close>, the
      rounded float sum otherwise\<close>
  "add_bonus fl score bonus = (case bonus of None \<Rightarrow> score | Some b \<Rightarrow> fl_add fl score b)"

fun search_loop ::
  "py_runtime \<Rightarrow> 's::linorder float_ops \<Rightarrow> 's tool list \<Rightarrow> nat \<Rightarrow> ('s \<times> int) list \<Rightarrow> 's tool list
     \<Rightarrow> py_error + 's tool list"
where
  "search_loop u fl tools i [] results = Inr results"
| "search_loop u fl tools i ((score, idx) # hits) results =
     (if int (length tools) \<le> idx then search_loop u fl tools (i + 1) hits results
      else case py_getitem tools idx of
             Inl err \<Rightarrow> Inl err
           | Inr t \<Rightarrow>
               let tool = t\<lparr>relevance_score := Some score, rank := Some (i + 1)\<rparr>;
                   tool = tool\<lparr>final_score :=
                                 Some (add_bonus fl score (popularity_bonus u fl tool))\<rparr>
               in search_loop u fl tools (i + 1) hits (results @ [tool]))"

text \<open>
  The embedding model and the FAISS index are collaborators outside the repository.
  \<open>nearest ix q k\<close> stands for encoding the processed query, normalising it and calling
  \<open>index.search\<close> with \<open>top_k = k\<close> on the index \<open>ix\<close>; its value is the list
  \<open>zip(scores[0], indices[0])\<close>.
\<close>

definition search ::
  "py_runtime \<Rightarrow> 's::linorder float_ops \<Rightarrow> ('s ndarray \<Rightarrow> pystr \<Rightarrow> int \<Rightarrow> ('s \<times> int) list)
     \<Rightarrow> 's engine \<Rightarrow> pystr \<Rightarrow> int \<Rightarrow> py_error + 's tool list"
where
  "search u fl nearest e query top_k =
     (if py_strip u query = [] then Inr []
      else
        let processed_query = preprocess_query u query
        in case index e of
             None \<Rightarrow> Inl AttributeError
           | Some ix \<Rightarrow>
               (case search_loop u fl (corpus e) 0 (nearest ix processed_query top_k) [] of
                  Inl err \<Rightarrow> Inl err
                | Inr results \<Rightarrow> sort_reverse final_score results))"

section \<open>The other retrieval modes\<close>

fun category_loop ::
  "py_runtime \<Rightarrow> pystr \<Rightarrow> int \<Rightarrow> 's::one tool list \<Rightarrow> 's tool list \<Rightarrow> 's tool list"
where
  "category_loop u cat top_k [] results = results"
| "category_loop u cat top_k (tool # rest) results =
     (if sublist (str_lower u cat) (str_lower u (category tool)) then
        let tool_copy = tool\<lparr>rank := Some (length results + 1), relevance_score := Some 1\<rparr>;
            results = results @ [tool_copy]
        in if top_k \<le> int (length results) then results
           else category_loop u cat top_k rest results
      else category_loop u cat top_k rest results)"

definition search_by_category ::
  "py_runtime \<Rightarrow> 's::one engine \<Rightarrow> pystr \<Rightarrow> int \<Rightarrow> 's tool list"
where
  "search_by_category u e cat top_k = category_loop u cat top_k (corpus e) []"

fun mark_sampled :: "nat \<Rightarrow> nat list \<Rightarrow> (nat \<Rightarrow> 's::one tool) \<Rightarrow> (nat \<Rightarrow> 's tool)" where
  \<comment> \<open>the loop of \<open>get_random_tools\<close>: it writes into the dicts the references denote\<close>
  "mark_sampled i [] h = h"
| "mark_sampled i (r # rs) h =
     mark_sampled (i + 1) rs (h(r := (h r)\<lparr>rank := Some (i + 1), relevance_score := Some 1\<rparr>))"

definition valid_sample :: "nat list \<Rightarrow> nat \<Rightarrow> nat \<Rightarrow> bool" where
  \<comment> \<open>what \<open>random.sample(population, k)\<close> may choose: \<open>k\<close> distinct positions\<close>
  "valid_sample picks n k = (length picks = k \<and> distinct picks \<and> list_all (\<lambda>i. i < n) picks)"

definition get_random_tools ::
  "nat list \<Rightarrow> 's::one engine \<Rightarrow> int \<Rightarrow> py_error + (nat list \<times> 's engine)"
where
  \<comment> \<open>\<open>picks\<close> are the positions \<open>random.sample\<close> draws; the result is a list of references
      together with the engine after the call\<close>
  "get_random_tools picks e count =
     (if int (length (tools_data e)) \<le> count then Inr (tools_data e, e)
      else if count < 0 then Inl ValueError
      else
        let random_tools = map (\<lambda>i. tools_data e ! i) picks
        in Inr (random_tools, e\<lparr>heap := mark_sampled 0 random_tools (heap e)\<rparr>))"

fun collect_popular :: "py_runtime \<Rightarrow> 's tool list \<Rightarrow> 's tool list" where
  "collect_popular u [] = []"
| "collect_popular u (tool # rest) =
     (if popularity tool \<noteq> [] then
        (case py_int u (py_replace [44] [] (py_replace [43] [] (popularity tool))) of
           None \<Rightarrow> collect_popular u rest
         | Some n \<Rightarrow> tool\<lparr>pop_num := Some n\<rparr> # collect_popular u rest)
      else collect_popular u rest)"

fun number_results :: "nat \<Rightarrow> 's::one tool list \<Rightarrow> 's tool list" where
  "number_results i [] = []"
| "number_results i (tool # rest) =
     tool\<lparr>rank := Some (i + 1), relevance_score := Some 1\<rparr> # number_results (i + 1) rest"

definition get_popular_tools ::
  "py_runtime \<Rightarrow> 's::one engine \<Rightarrow> int \<Rightarrow> py_error + 's tool list"
where
  "get_popular_tools u e top_k =
     (case sort_reverse pop_num (collect_popular u (corpus e)) of
        Inl err \<Rightarrow> Inl err
      | Inr tools_with_pop \<Rightarrow> Inr (number_results 0 (py_take top_k tools_with_pop)))"

section \<open>Snapshots\<close>

text \<open>
  \<open>pickle\<close> and the file system are outside the repository: \<open>dump\<close> and \<open>load\<close> stand for
  \<open>pickle.dump\<close> and \<open>pickle.load\<close>, and a file system maps a path to the bytes stored
  there. What is pickled and unpickled is a dict that may or may not have the keys
  \<open>'tools_data'\<close> and \<open>'embeddings'\<close>; the value under \<open>'embeddings'\<close> is an array or \<open>None\<close>.
  A failure of \<open>open\<close> or of \<open>pickle.load\<close> is \<open>None\<close>. \<open>load_index\<close> catches every
  exception and returns \<open>False\<close>, keeping the attributes it had assigned before the
  exception was raised. Unpickling builds new dict objects, which get fresh references.
\<close>

record 's snapshot =
  snap_tools_data :: "'s tool list option"
  snap_embeddings :: "'s ndarray option option"

definition save_index ::
  "('s snapshot \<Rightarrow> 'b) \<Rightarrow> 's engine \<Rightarrow> pystr \<Rightarrow> (pystr \<Rightarrow> 'b option) \<Rightarrow> (pystr \<Rightarrow> 'b option)"
where
  "save_index dump e path fs =
     fs(path := Some (dump \<lparr>snap_tools_data = Some (corpus e),
                             snap_embeddings = Some (embeddings e)\<rparr>))"

definition set_tools_data :: "'s tool list \<Rightarrow> 's engine \<Rightarrow> 's engine" where
  \<comment> \<open>\<open>self.tools_data = data['tools_data']\<close>, the unpickled dicts at fresh references\<close>
  "set_tools_data tools e =
     e\<lparr>heap := (\<lambda>r. if next_ref e \<le> r \<and> r < next_ref e + length tools
                     then tools ! (r - next_ref e) else heap e r),
       tools_data := [next_ref e ..< next_ref e + length tools],
       next_ref := next_ref e + length tools\<rparr>"

definition load_index ::
  "('b \<Rightarrow> 's snapshot option) \<Rightarrow> 's engine \<Rightarrow> pystr \<Rightarrow> (pystr \<Rightarrow> 'b option) \<Rightarrow> bool \<times> 's engine"
where
  "load_index load e path fs =
     (case fs path of
        None \<Rightarrow> (False, e)
      | Some blob \<Rightarrow>
          (case load blob of
             None \<Rightarrow> (False, e)
           | Some data \<Rightarrow>
               (case snap_tools_data data of
                  None \<Rightarrow> (False, e)
                | Some tools \<Rightarrow>
                    let e = set_tools_data tools e
                    in case snap_embeddings data of
                         None \<Rightarrow> (False, e)
                       | Some emb \<Rightarrow>
                           let e = e\<lparr>embeddings := emb\<rparr>
                           in case embeddings e of
                                None \<Rightarrow> (False, e)
                              | Some m \<Rightarrow> (True, e\<lparr>index := Some m\<rparr>))))"

section \<open>The popularity bonus as the specification words it\<close>

definition parsed_popularity :: "py_runtime \<Rightarrow> pystr \<Rightarrow> int option" where
  \<comment> \<open>strip every \<open>+\<close> and \<open>,\<close> and parse the rest as an integer\<close>
  "parsed_popularity u p = py_int u (filter (\<lambda>c. c \<noteq> 43 \<and> c \<noteq> 44) p)"

definition bonus_of_popularity :: "py_runtime \<Rightarrow> 's::linorder float_ops \<Rightarrow> pystr \<Rightarrow> 's option" where
  \<comment> \<open>no bonus (\<open>None\<close>, the int 0) when parsing fails, \<open>min(parsed / 10000, 0.1)\<close> when it
      succeeds and the division returns a float, no bonus again when the division raises\<close>
  "bonus_of_popularity u fl p =
     (case parsed_popularity u p of
        None \<Rightarrow> None
      | Some n \<Rightarrow>
          (case fl_truediv fl n 10000 of
             Inl err \<Rightarrow> None
           | Inr q \<Rightarrow> Some (min q (fl_tenth fl))))"

section \<open>The float arithmetic of CPython and numpy 2\<close>

text \<open>
  IEEE 754 binary floats as the reals they denote: rounding to nearest, ties to even, with
  \<open>p\<close> bits of precision and \<open>2 ^ qmin\<close> the smallest subnormal. A double has \<open>p = 53\<close>
  and \<open>qmin = -1074\<close>, a \<open>float32\<close> has \<open>p = 24\<close> and \<open>qmin = -149\<close>. CPython's
  \<open>int / int\<close> is the correctly rounded quotient as a double and raises OverflowError when
  that is beyond the largest double. numpy 2 adds a \<open>float32\<close> scalar and a Python float in
  \<open>float32\<close>, after converting the Python float to \<open>float32\<close>; both steps overflow to an
  infinity, with a warning and no exception. The two infinities of \<open>float32\<close> are written
  as the reals \<open>2 ^ 128\<close> and \<open>- (2 ^ 128)\<close>, which keeps the order. The sum of two opposite
  infinities is NaN and has no value here.
\<close>

definition round_even :: "real \<Rightarrow> int" where
  "round_even x =
     (let f = \<lfloor>x\<rfloor>
      in if x - of_int f < 1 / 2 then f
         else if 1 / 2 < x - of_int f then f + 1
         else if even f then f else f + 1)"

definition round_to :: "nat \<Rightarrow> int \<Rightarrow> real \<Rightarrow> real" where
  "round_to p qmin x =
     (if x = 0 then 0
      else let q = max (\<lfloor>log 2 \<bar>x\<bar>\<rfloor> - (int p - 1)) qmin
           in of_int (round_even (x / 2 powi q)) * 2 powi q)"

definition py_truediv :: "int \<Rightarrow> int \<Rightarrow> py_error + real" where
  \<comment> \<open>\<open>a / b\<close> on ints: the nearest double to the quotient\<close>
  "py_truediv a b =
     (if b = 0 then Inl ZeroDivisionError
      else if 2 ^ 1024 - 2 ^ 970 \<le> \<bar>real_of_int a / real_of_int b\<bar> then Inl OverflowError
      else Inr (round_to 53 (- 1074) (real_of_int a / real_of_int b)))"

definition to_float32 :: "real \<Rightarrow> real" where
  \<comment> \<open>the nearest \<open>float32\<close>; from \<open>2 ^ 128 - 2 ^ 103\<close> on that is an infinity, for which
      \<open>2 ^ 128\<close> and \<open>- (2 ^ 128)\<close> stand\<close>
  "to_float32 x = max (- (2 ^ 128)) (min (2 ^ 128) (round_to 24 (- 149) x))"

definition np_add32 :: "real \<Rightarrow> real \<Rightarrow> real" where
  \<comment> \<open>\<open>score + bonus\<close> for a \<open>float32\<close> score and a Python float bonus; an infinite operand
      is the result\<close>
  "np_add32 x y =
     (let b = to_float32 y
      in if 2 ^ 128 \<le> \<bar>x\<bar> then x
         else if 2 ^ 128 \<le> \<bar>b\<bar> then b
         else to_float32 (x + b))"

definition ieee_floats :: "real float_ops" where
  "ieee_floats =
     \<lparr>fl_tenth = round_to 53 (- 1074) (1 / 10), fl_truediv = py_truediv, fl_add = np_add32\<rparr>"

section \<open>Concrete engines for the examples\<close>

definition sample_runtime :: py_runtime where
  \<comment> \<open>a fragment of the interpreter's tables: the Hebrew letters are alphanumeric, the
      no-break space is whitespace, the Arabic-Indic digits are decimal digits, lower-casing
      acts on ASCII, and integer strings are limited to 4300 digits\<close>
  "sample_runtime =
     \<lparr>uni_alnum = (\<lambda>c. 1488 \<le> c \<and> c \<le> 1514),
      uni_space = (\<lambda>c. c = 160),
      uni_decimal = (\<lambda>c. if 1632 \<le> c \<and> c \<le> 1641 then Some (c - 1632) else None),
      str_lower = map (\<lambda>c. if 65 \<le> c \<and> c \<le> 90 then c + 32 else c),
      int_max_str_digits = 4300\<rparr>"

definition new_tool :: "pystr \<Rightarrow> pystr \<Rightarrow> pystr \<Rightarrow> real tool" where
  \<comment> \<open>a dict as \<open>load_tools_from_db\<close> builds it: the seven fields and nothing else\<close>
  "new_tool nm cat pop =
     \<lparr>name = nm, url = [], description = [100], category = cat, popularity = pop,
      pricing = [], tags = [], rank = None, relevance_score = None, final_score = None,
      pop_num = None\<rparr>"

definition engine_of :: "real tool list \<Rightarrow> real engine" where
  \<comment> \<open>an engine whose corpus is the given list, one dict object per position\<close>
  "engine_of tools =
     \<lparr>heap = (\<lambda>r. if r < length tools then tools ! r else new_tool [] [] []),
      next_ref = length tools,
      tools_data = [0 ..< length tools],
      embeddings = Some \<lparr>nrows = length tools, ncols = 1, cells = replicate (length tools) 1\<rparr>,
      index = Some \<lparr>nrows = length tools, ncols = 1, cells = replicate (length tools) 1\<rparr>\<rparr>"

definition fixed_hits ::
  "(real \<times> int) list \<Rightarrow> real ndarray \<Rightarrow> pystr \<Rightarrow> int \<Rightarrow> (real \<times> int) list"
where
  \<comment> \<open>a similarity index that answers every query with the same hits\<close>
  "fixed_hits hits ix q k = hits"

definition two_tools :: "real tool list" where
  \<comment> \<open>tool \<open>A\<close> without popularity and tool \<open>B\<close> with popularity \<open>1,000+\<close>\<close>
  "two_tools = [new_tool [65] [] [], new_tool [66] [] [49, 44, 48, 48, 48, 43]]"



definition huge_popularity :: pystr where
  \<comment> \<open>the digit 1 followed by 320 zeros\<close>
  "huge_popularity = 49 # replicate 320 48"

definition test_tools :: "real tool list" where
  \<comment> \<open>the corpus of \<open>test_get_random_tools_returns_copies\<close>: \<open>Tool1\<close> and \<open>Tool2\<close>\<close>
  "test_tools =
     [\<lparr>name = [84, 111, 111, 108, 49], url = [], description = [], category = [],
       popularity = [], pricing = [], tags = [], rank = None, relevance_score = None,
       final_score = None, pop_num = None\<rparr>,
      \<lparr>name = [84, 111, 111, 108, 50], url = [], description = [], category = [],
       popularity = [], pricing = [], tags = [], rank = None, relevance_score = None,
       final_score = None, pop_num = None\<rparr>]"

definition set_name :: "nat \<Rightarrow> pystr \<Rightarrow> 's engine \<Rightarrow> 's engine" where
  \<comment> \<open>a caller's \<open>result['name'] = value\<close> on a returned reference\<close>
  "set_name r v e = e\<lparr>heap := (heap e)(r := (heap e r)\<lparr>name := v\<rparr>)\<rparr>"

definition id_dump :: "real snapshot \<Rightarrow> real snapshot" where
  \<comment> \<open>a serialiser whose bytes are the snapshot itself, with \<open>Some\<close> as its inverse\<close>
  "id_dump d = d"

definition scored :: "py_runtime \<Rightarrow> 's::linorder float_ops \<Rightarrow> 's tool \<Rightarrow> 's \<Rightarrow> nat \<Rightarrow> 's tool" where
  \<comment> \<open>the dict the loop of \<open>search\<close> builds from the corpus record \<open>t\<close> for the hit at
      position \<open>i\<close> with similarity \<open>score\<close>\<close>
  "scored u fl t score i =
     t\<lparr>relevance_score := Some score, rank := Some (i + 1),
       final_score := Some (add_bonus fl score (popularity_bonus u fl t))\<rparr>"

section \<open>Properties of the string functions\<close>

subsection \<open>Replacement\<close>

lemma prefix_replace_scan:
  "prefix p (replace_scan k v t) \<Longrightarrow> set p \<inter> set v = {} \<Longrightarrow> v \<noteq> [] \<Longrightarrow> prefix p t"
proof (induction k v t arbitrary: p rule: replace_scan.induct)
  case (1 old new)
  then show ?case by simp
next
  case (2 old new c cs)
  show ?case
  proof (cases "old \<noteq> [] \<and> prefix old (c # cs)")
    case True
    with 2 have "prefix p (new @ replace_scan old new (drop (length old) (c # cs)))" by simp
    with 2(4,5) have "p = []"
      by (cases p; cases new) (auto)
    then show ?thesis by simp
  next
    case False
    with 2 show ?thesis by (cases p) auto
  qed
qed

lemma sublist_disjoint_append:
  "sublist k (v @ r) \<Longrightarrow> set k \<inter> set v = {} \<Longrightarrow> k \<noteq> [] \<Longrightarrow> sublist k r"
  by (induction v) (auto simp: sublist_Cons_right prefix_Cons neq_Nil_conv)

lemma sublist_replace_scan:
  "sublist k' (replace_scan k v s) \<Longrightarrow> set k' \<inter> set v = {} \<Longrightarrow> k' \<noteq> [] \<Longrightarrow> v \<noteq> []
   \<Longrightarrow> sublist k' s"
proof (induction k v s rule: replace_scan.induct)
  case (1 old new)
  then show ?case by simp
next
  case (2 old new c cs)
  show ?case
  proof (cases "old \<noteq> [] \<and> prefix old (c # cs)")
    case True
    with 2 have "sublist k' (new @ replace_scan old new (drop (length old) (c # cs)))" by simp
    then have "sublist k' (replace_scan old new (drop (length old) (c # cs)))"
      using 2 by (auto dest: sublist_disjoint_append)
    with 2 True have "sublist k' (drop (length old) (c # cs))" by blast
    then show ?thesis by (meson sublist_drop sublist_order.order_trans)
  next
    case False
    with 2 have *: "sublist k' (c # replace_scan old new cs)" by simp
    then consider "prefix k' (c # replace_scan old new cs)" | "sublist k' (replace_scan old new cs)"
      by (auto simp: sublist_Cons_right)
    then show ?thesis
    proof cases
      case 1
      from False have "replace_scan old new (c # cs) = c # replace_scan old new cs" by auto
      with 1 have "prefix k' (replace_scan old new (c # cs))" by simp
      then have "prefix k' (c # cs)" using 2 prefix_replace_scan by blast
      then show ?thesis by auto
    next
      case 2
      with "2.IH"(2) False "2.prems" have "sublist k' cs" by blast
      then show ?thesis by (simp add: sublist_Cons_right)
    qed
  qed
qed

lemma not_sublist_replace_scan:
  "set k \<inter> set v = {} \<Longrightarrow> k \<noteq> [] \<Longrightarrow> v \<noteq> [] \<Longrightarrow> \<not> sublist k (replace_scan k v s)"
proof (induction k v s rule: replace_scan.induct)
  case (1 old new)
  then show ?case by simp
next
  case (2 old new c cs)
  show ?case
  proof (cases "old \<noteq> [] \<and> prefix old (c # cs)")
    case True
    with 2 have "\<not> sublist old (replace_scan old new (drop (length old) (c # cs)))" by blast
    then have "\<not> sublist old (new @ replace_scan old new (drop (length old) (c # cs)))"
      using 2 by (auto dest: sublist_disjoint_append)
    with True show ?thesis by simp
  next
    case False
    with 2 have a: "\<not> sublist old (replace_scan old new cs)" by blast
    have "\<not> prefix old (replace_scan old new (c # cs))"
      using prefix_replace_scan[of old old new "c # cs"] 2 False by blast
    moreover from False have "replace_scan old new (c # cs) = c # replace_scan old new cs" by auto
    ultimately show ?thesis using a by (simp add: sublist_Cons_right)
  qed
qed

lemma replace_scan_id: "\<not> sublist k s \<Longrightarrow> replace_scan k v s = s"
  by (induction k v s rule: replace_scan.induct) (auto simp: sublist_Cons_right)

lemma isspace_32 [simp]: "py_isspace u 32"
  by (simp add: py_isspace_def)

lemma not_keeps_32 [simp]: "\<not> keeps u 32"
  by (simp add: keeps_def)

lemma set_sub_spaces: "c \<in> set (sub_spaces u s) \<Longrightarrow> c = 32 \<or> (c \<in> set s \<and> \<not> py_isspace u c)"
proof (induction u s rule: sub_spaces.induct)
  case (1 u)
  then show ?case by simp
next
  case (2 u d cs)
  then show ?case
    by (auto split: if_splits dest: set_dropWhileD)
qed

lemma sub_nonword_id: "\<forall>c\<in>set s. c = 32 \<or> keeps u c \<Longrightarrow> sub_nonword u s = s"
  unfolding sub_nonword_def by (rule map_idI) (auto simp: keeps_def)

lemma collapsed_sub_spaces: "collapsed u (sub_spaces u s)"
proof (induction u s rule: sub_spaces.induct)
  case (1 u)
  then show ?case by simp
next
  case (2 u c cs)
  show ?case
  proof (cases "py_isspace u c")
    case True
    let ?r = "dropWhile (py_isspace u) cs"
    have ih: "collapsed u (sub_spaces u ?r)" using 2 True by simp
    have eq: "sub_spaces u (c # cs) = 32 # sub_spaces u ?r" using True by simp
    show ?thesis
    proof (cases ?r)
      case Nil
      then have "sub_spaces u ?r = []" by (simp only: sub_spaces.simps)
      then show ?thesis by (simp only: eq) simp
    next
      case (Cons d ds)
      then have nd: "\<not> py_isspace u d" using hd_dropWhile[of "py_isspace u" cs] by simp
      from ih have "collapsed u (32 # sub_spaces u ?r)"
        by (simp only: Cons) (simp add: nd)
      then show ?thesis by (simp only: eq)
    qed
  next
    case False
    with 2 have "collapsed u (sub_spaces u cs)" by simp
    with False show ?thesis by (cases "sub_spaces u cs") auto
  qed
qed

lemma collapsed_fix: "collapsed u s \<Longrightarrow> sub_spaces u s = s"
  by (induction u s rule: collapsed.induct) (auto)

lemma collapsed_append: "collapsed u (xs @ ys) \<Longrightarrow> collapsed u xs \<and> collapsed u ys"
proof (induction u xs rule: collapsed.induct)
  case (1 u)
  then show ?case by simp
next
  case (2 u c)
  then show ?case by (cases ys) auto
next
  case (3 u c d r)
  then show ?case by auto
qed

lemma collapsed_sublist: "sublist xs ys \<Longrightarrow> collapsed u ys \<Longrightarrow> collapsed u xs"
  unfolding sublist_def using collapsed_append by blast

lemma sublist_py_strip: "sublist (py_strip u s) s"
proof -
  have "sublist (rev (py_strip u s)) (rev (dropWhile (py_isspace u) s))"
    unfolding py_strip_def by simp
  then have "sublist (py_strip u s) (dropWhile (py_isspace u) s)"
    by (simp add: sublist_rev_left)
  then show ?thesis
    using sublist_dropWhile sublist_order.order_trans by blast
qed

lemma set_py_strip: "set (py_strip u s) \<subseteq> set s"
  using sublist_py_strip by (rule set_mono_sublist)

lemma set_clean: "c \<in> set (clean u s) \<Longrightarrow> c = 32 \<or> keeps u c"
proof -
  assume "c \<in> set (clean u s)"
  then have "c \<in> set (sub_spaces u (sub_nonword u s))"
    using set_py_strip unfolding clean_def by blast
  then have "c = 32 \<or> (c \<in> set (sub_nonword u s) \<and> \<not> py_isspace u c)"
    by (rule set_sub_spaces)
  then show ?thesis
    by (auto simp: sub_nonword_def keeps_def split: if_splits)
qed

lemma py_strip_idem: "py_strip u (py_strip u s) = py_strip u s"
proof -
  let ?P = "py_isspace u"
  let ?A = "dropWhile ?P s"
  let ?B = "dropWhile ?P (rev ?A)"
  have B: "?B = [] \<or> \<not> ?P (hd ?B)" using hd_dropWhile[of ?P "rev ?A"] by blast
  have "rev ?B = [] \<or> \<not> ?P (hd (rev ?B))"
  proof (cases "?B = []")
    case True
    then show ?thesis by simp
  next
    case False
    have "suffix ?B (rev ?A)" by (rule suffix_dropWhile)
    then obtain ps where ps: "rev ?A = ps @ ?B" by (auto simp: suffix_def)
    with False have "last ?B = last (rev ?A)" by (metis last_appendR)
    moreover from False have "?A \<noteq> []" by (metis dropWhile.simps(1) rev.simps(1))
    ultimately have "hd (rev ?B) = hd ?A" using False by (simp add: hd_rev last_rev)
    moreover have "\<not> ?P (hd ?A)" using \<open>?A \<noteq> []\<close> hd_dropWhile by blast
    ultimately show ?thesis by simp
  qed
  then have 1: "dropWhile ?P (rev ?B) = rev ?B" by (simp add: dropWhile_eq_self_iff)
  from B have 2: "dropWhile ?P ?B = ?B" by (simp add: dropWhile_eq_self_iff)
  show ?thesis unfolding py_strip_def by (simp only: 1 rev_rev_ident 2)
qed

lemma clean_idem: "clean u (clean u s) = clean u s"
proof -
  let ?y = "clean u s"
  have 1: "sub_nonword u ?y = ?y" using set_clean by (intro sub_nonword_id) blast
  have "collapsed u ?y"
    unfolding clean_def using collapsed_sublist[OF sublist_py_strip collapsed_sub_spaces] .
  then have 2: "sub_spaces u ?y = ?y" by (rule collapsed_fix)
  have 3: "py_strip u ?y = ?y" unfolding clean_def by (rule py_strip_idem)
  show ?thesis
    by (subst (1) clean_def) (simp only: 1 2 3)
qed

lemma prefix_sub_spaces:
  "prefix p (sub_spaces u s) \<Longrightarrow> \<forall>c\<in>set p. keeps u c \<Longrightarrow> prefix p s"
proof (induction u s arbitrary: p rule: sub_spaces.induct)
  case (1 u)
  then show ?case by simp
next
  case (2 u c cs)
  show ?case
  proof (cases p)
    case Nil
    then show ?thesis by simp
  next
    case (Cons d ds)
    show ?thesis
    proof (cases "py_isspace u c")
      case True
      with 2(3) Cons have "d = 32" by simp
      with 2(4) Cons show ?thesis by simp
    next
      case False
      with 2(3) Cons have "d = c" "prefix ds (sub_spaces u cs)" by auto
      moreover from 2(4) Cons have "\<forall>c\<in>set ds. keeps u c" by simp
      ultimately show ?thesis using 2(2) False Cons by simp
    qed
  qed
qed

lemma sublist_sub_spaces:
  "sublist k (sub_spaces u s) \<Longrightarrow> \<forall>c\<in>set k. keeps u c \<Longrightarrow> k \<noteq> [] \<Longrightarrow> sublist k s"
proof (induction u s rule: sub_spaces.induct)
  case (1 u)
  then show ?case by simp
next
  case (2 u c cs)
  from 2(3) consider "prefix k (sub_spaces u (c # cs))" | "\<not> prefix k (sub_spaces u (c # cs))"
    by blast
  then show ?case
  proof cases
    case 1
    then show ?thesis using prefix_sub_spaces 2(4) by blast
  next
    case np: 2
    show ?thesis
    proof (cases "py_isspace u c")
      case True
      with np 2(3) have "sublist k (sub_spaces u (dropWhile (py_isspace u) cs))"
        by (simp add: sublist_Cons_right)
      with 2 True have "sublist k (dropWhile (py_isspace u) cs)" by blast
      then have "sublist k cs" using sublist_dropWhile sublist_order.order_trans by blast
      then show ?thesis by (simp add: sublist_Cons_right)
    next
      case False
      with np 2(3) have "sublist k (sub_spaces u cs)" by (simp add: sublist_Cons_right)
      with 2 False have "sublist k cs" by blast
      then show ?thesis by (simp add: sublist_Cons_right)
    qed
  qed
qed

lemma sublist_sub_nonword:
  assumes "sublist k (sub_nonword u s)" "\<forall>c\<in>set k. keeps u c"
  shows "sublist k s"
proof -
  define f where "f = (\<lambda>c. if py_isword u c \<or> py_isspace u c then c else 32)"
  from assms(1) obtain ps ss where "map f s = ps @ k @ ss"
    unfolding sublist_def sub_nonword_def f_def by blast
  then obtain ps' vs where 1: "s = ps' @ vs" and 2: "map f vs = k @ ss"
    by (metis map_eq_append_conv)
  from 2 obtain k' ss' where 3: "vs = k' @ ss'" and k: "map f k' = k"
    by (metis map_eq_append_conv)
  from 1 3 have s: "s = ps' @ k' @ ss'" by simp
  have "map f k' = k'"
  proof (rule map_idI)
    fix c assume "c \<in> set k'"
    then have "f c \<in> set k" using k by auto
    with assms(2) have "keeps u (f c)" by blast
    then show "f c = c" by (auto simp: f_def split: if_splits)
  qed
  with k s show ?thesis by auto
qed

lemma sublist_clean:
  assumes "sublist k (clean u s)" "k \<noteq> []" "32 \<notin> set k"
  shows "sublist k s"
proof -
  have keeps: "\<forall>c\<in>set k. keeps u c"
  proof
    fix c assume c: "c \<in> set k"
    with assms(1) have "c \<in> set (clean u s)" using set_mono_sublist by blast
    with set_clean c assms(3) show "keeps u c" by blast
  qed
  from assms(1) have "sublist k (sub_spaces u (sub_nonword u s))"
    unfolding clean_def using sublist_py_strip sublist_order.order_trans by blast
  then have "sublist k (sub_nonword u s)"
    using sublist_sub_spaces keeps assms(2) by blast
  then show ?thesis using sublist_sub_nonword keeps by blast
qed

lemma replace_all_snoc:
  "replace_all (T @ [(a, b)]) s = py_replace a b (replace_all T s)"
  by (simp add: replace_all_def)

lemma replace_all_no_key:
  assumes ne: "\<forall>(k, v)\<in>set T. k \<noteq> [] \<and> v \<noteq> []"
    and dj: "\<forall>(k, v)\<in>set T. \<forall>(k', v')\<in>set T. set k \<inter> set v' = {}"
  shows "set T' \<subseteq> set T \<Longrightarrow> (k, v) \<in> set T' \<Longrightarrow> \<not> sublist k (replace_all T' s)"
proof (induction T' arbitrary: k v rule: rev_induct)
  case Nil
  then show ?case by simp
next
  case (snoc p T')
  obtain a b where p: "p = (a, b)" by (cases p)
  from snoc.prems p have ab: "(a, b) \<in> set T" and kv: "(k, v) \<in> set T" by auto
  from ab ne have a: "a \<noteq> []" and b: "b \<noteq> []" by auto
  from kv ne have k: "k \<noteq> []" by auto
  from ab kv dj have d1: "set a \<inter> set b = {}" and d2: "set k \<inter> set b = {}"
    by fastforce+
  have eq: "replace_all (T' @ [p]) s = replace_scan a b (replace_all T' s)"
    using a by (simp add: p replace_all_snoc py_replace_def)
  show ?case
  proof (cases "k = a")
    case True
    then show ?thesis unfolding eq using not_sublist_replace_scan[OF d1 a b] by simp
  next
    case False
    with snoc.prems p have "(k, v) \<in> set T'" by auto
    with snoc have "\<not> sublist k (replace_all T' s)" by auto
    then show ?thesis unfolding eq using sublist_replace_scan[OF _ d2 k b] by blast
  qed
qed

lemma replace_all_id:
  "\<forall>(k, v)\<in>set T. \<not> sublist k s \<Longrightarrow> replace_all T s = s"
proof (induction T rule: rev_induct)
  case Nil
  then show ?case by (simp add: replace_all_def)
next
  case (snoc p T)
  obtain a b where p: "p = (a, b)" by (cases p)
  from snoc have 1: "replace_all T s = s" by auto
  from snoc.prems p have 2: "\<not> sublist a s" by auto
  then have "a \<noteq> []" by auto
  with 1 2 show ?case by (simp add: p replace_all_snoc py_replace_def replace_scan_id)
qed

lemma table_shape:
  "\<forall>(k, v)\<in>set hebrew_to_english.
     k \<noteq> [] \<and> v \<noteq> [] \<and> (\<forall>c\<in>set k. c = 39 \<or> 1488 \<le> c) \<and> (\<forall>c\<in>set v. 39 < c \<and> c < 1488 \<or> c = 32)"
  by (simp add: hebrew_to_english_def)

lemma table_nonempty: "\<forall>(k, v)\<in>set hebrew_to_english. k \<noteq> [] \<and> v \<noteq> []"
  using table_shape by fastforce

lemma table_no_space: "(k, v) \<in> set hebrew_to_english \<Longrightarrow> 32 \<notin> set k"
  using table_shape by fastforce

lemma table_disjoint:
  "\<forall>(k, v)\<in>set hebrew_to_english. \<forall>(k', v')\<in>set hebrew_to_english. set k \<inter> set v' = {}"
proof -
  { fix k v k' v' c
    assume "(k, v) \<in> set hebrew_to_english" "(k', v') \<in> set hebrew_to_english"
      "c \<in> set k" "c \<in> set v'"
    with table_shape have "c = 39 \<or> 1488 \<le> c" "39 < c \<and> c < 1488 \<or> c = 32" by fastforce+
    then have False by auto }
  then show ?thesis by blast
qed

lemma preprocess_query_clean:
  "preprocess_query u x = clean u (replace_all hebrew_to_english x)"
  by (simp add: preprocess_query_def clean_def)

text \<open>
  C7. Query normalisation is idempotent: preprocessing a preprocessed query changes nothing,
  whatever the input string and whatever the Unicode tables of the interpreter.
  After the first pass no key of the table occurs in the string (keys and replacement
  texts share no character, and cleaning never brings two kept characters together), so the
  second pass replaces nothing and cleans a string that is already clean.
\<close>

theorem preprocess_query_idempotent:
  "preprocess_query u (preprocess_query u x) = preprocess_query u x"
proof -
  let ?T = hebrew_to_english
  let ?r = "replace_all ?T x"
  let ?y = "clean u ?r"
  have "\<forall>(k, v)\<in>set ?T. \<not> sublist k ?y"
  proof (clarify)
    fix k v assume kv: "(k, v) \<in> set ?T" and sub: "sublist k ?y"
    from kv table_nonempty have "k \<noteq> []" by auto
    with sub table_no_space[OF kv] have "sublist k ?r" using sublist_clean by blast
    moreover have "\<not> sublist k ?r"
      using replace_all_no_key[OF table_nonempty table_disjoint _ kv] by simp
    ultimately show False by simp
  qed
  then have "replace_all ?T ?y = ?y" by (rule replace_all_id)
  then show ?thesis by (simp add: preprocess_query_clean clean_idem)
qed

text \<open>
  C8. The query \<open>tsadi ' alef tet, space, bet vav tet, space, het yod nun mem yod, !!!\<close>
  (the Hebrew for "chat bot free" followed by three exclamation marks, the input of the
  repository's own test) is preprocessed to exactly \<open>chat bot free\<close>.
\<close>

theorem preprocess_query_chat_bot_free:
  "preprocess_query u
     [1510, 39, 1488, 1496, 32, 1489, 1493, 1496, 32, 1495, 1497, 1504, 1502, 1497, 33, 33, 33]
   = [99, 104, 97, 116, 32, 98, 111, 116, 32, 102, 114, 101, 101]"
  by (simp add: preprocess_query_def replace_all_def hebrew_to_english_def py_replace_def
      sub_nonword_def py_strip_def py_isspace_def py_isword_def)

section \<open>Properties of the concrete float arithmetic\<close>












lemma binade_unique:
  assumes "0 < x" "2 powi e \<le> x" "x < 2 powi (e + 1)"
  shows "\<lfloor>log 2 x\<rfloor> = e"
proof -
  have 1: "(2::real) powr real_of_int e = 2 powi e" by (rule powr_real_of_int') simp_all
  have "(2::real) powr real_of_int (e + 1) = 2 powi (e + 1)" by (rule powr_real_of_int') simp_all
  then have 2: "(2::real) powr (real_of_int e + 1) = 2 powi (e + 1)" by simp
  from assms(2,3) have "2 powr real_of_int e \<le> x \<and> x < 2 powr (real_of_int e + 1)"
    by (simp only: 1 2)
  then show ?thesis
    using floor_log_eq_powr_iff[of x 2 e] assms(1) by simp
qed

lemma round_to_binade:
  assumes "2 powi e \<le> \<bar>x\<bar>" "\<bar>x\<bar> < 2 powi (e + 1)" "qmin \<le> e - (int p - 1)"
  shows "round_to p qmin x =
           of_int (round_even (x / 2 powi (e - (int p - 1)))) * 2 powi (e - (int p - 1))"
proof -
  have "(0::real) < 2 powi e" by simp
  with assms(1) have pos: "0 < \<bar>x\<bar>" by linarith
  then have nz: "x \<noteq> 0" by simp
  from binade_unique[OF pos assms(1,2)] have e: "\<lfloor>log 2 \<bar>x\<bar>\<rfloor> = e" .
  from assms(3) have m: "max (e - (int p - 1)) qmin = e - (int p - 1)" by simp
  show ?thesis unfolding round_to_def Let_def e m using nz by simp
qed

lemma round_to_zero [simp]: "round_to p qmin 0 = 0"
  by (simp add: round_to_def)





lemma double_tenth: "round_to 53 (- 1074) (1 / 10) = 3602879701896397 / 36028797018963968"
proof -
  have "round_to 53 (- 1074) (1 / 10) =
      of_int (round_even ((1 / 10) / 2 powi (- 4 - (int 53 - 1)))) * 2 powi (- 4 - (int 53 - 1))"
    by (rule round_to_binade) (simp_all add: power_int_minus)
  also have "\<dots> = 3602879701896397 / 36028797018963968"
    by (simp add: power_int_minus round_even_def)
  finally show ?thesis .
qed

lemma double_fifth: "round_to 53 (- 1074) (1 / 5) = 3602879701896397 / 18014398509481984"
proof -
  have "round_to 53 (- 1074) (1 / 5) =
      of_int (round_even ((1 / 5) / 2 powi (- 3 - (int 53 - 1)))) * 2 powi (- 3 - (int 53 - 1))"
    by (rule round_to_binade) (simp_all add: power_int_minus)
  also have "\<dots> = 3602879701896397 / 18014398509481984"
    by (simp add: power_int_minus round_even_def)
  finally show ?thesis .
qed

lemma double_sixteenth: "round_to 53 (- 1074) (1 / 16) = 1 / 16"
proof -
  have "round_to 53 (- 1074) (1 / 16) =
      of_int (round_even ((1 / 16) / 2 powi (- 4 - (int 53 - 1)))) * 2 powi (- 4 - (int 53 - 1))"
    by (rule round_to_binade) (simp_all add: power_int_minus)
  also have "\<dots> = 1 / 16"
    by (simp add: power_int_minus round_even_def)
  finally show ?thesis .
qed

lemma double_hundred: "round_to 53 (- 1074) (100) = 100"
proof -
  have "round_to 53 (- 1074) (100) =
      of_int (round_even ((100) / 2 powi (6 - (int 53 - 1)))) * 2 powi (6 - (int 53 - 1))"
    by (rule round_to_binade) (simp_all add: power_int_minus)
  also have "\<dots> = 100"
    by (simp add: power_int_minus round_even_def)
  finally show ?thesis .
qed

lemma float32_tenth: "round_to 24 (- 149) (3602879701896397 / 36028797018963968) = 13421773 / 134217728"
proof -
  have "round_to 24 (- 149) (3602879701896397 / 36028797018963968) =
      of_int (round_even ((3602879701896397 / 36028797018963968) / 2 powi (- 4 - (int 24 - 1)))) * 2 powi (- 4 - (int 24 - 1))"
    by (rule round_to_binade) (simp_all add: power_int_minus)
  also have "\<dots> = 13421773 / 134217728"
    by (simp add: power_int_minus round_even_def)
  finally show ?thesis .
qed

lemma float32_half_plus_tenth: "round_to 24 (- 149) (80530637 / 134217728) = 5033165 / 8388608"
proof -
  have "round_to 24 (- 149) (80530637 / 134217728) =
      of_int (round_even ((80530637 / 134217728) / 2 powi (- 1 - (int 24 - 1)))) * 2 powi (- 1 - (int 24 - 1))"
    by (rule round_to_binade) (simp_all add: power_int_minus)
  also have "\<dots> = 5033165 / 8388608"
    by (simp add: power_int_minus round_even_def)
  finally show ?thesis .
qed

lemma float32_sixteenth: "round_to 24 (- 149) (1 / 16) = 1 / 16"
proof -
  have "round_to 24 (- 149) (1 / 16) =
      of_int (round_even ((1 / 16) / 2 powi (- 4 - (int 24 - 1)))) * 2 powi (- 4 - (int 24 - 1))"
    by (rule round_to_binade) (simp_all add: power_int_minus)
  also have "\<dots> = 1 / 16"
    by (simp add: power_int_minus round_even_def)
  finally show ?thesis .
qed

lemma float32_nine_sixteenths: "round_to 24 (- 149) (9 / 16) = 9 / 16"
proof -
  have "round_to 24 (- 149) (9 / 16) =
      of_int (round_even ((9 / 16) / 2 powi (- 1 - (int 24 - 1)))) * 2 powi (- 1 - (int 24 - 1))"
    by (rule round_to_binade) (simp_all add: power_int_minus)
  also have "\<dots> = 9 / 16"
    by (simp add: power_int_minus round_even_def)
  finally show ?thesis .
qed

lemma fl_tenth_sample: "fl_tenth ieee_floats = 3602879701896397 / 36028797018963968"
  by (simp add: ieee_floats_def double_tenth)

lemma fl_truediv_sample [simp]: "fl_truediv ieee_floats = py_truediv"
  by (simp add: ieee_floats_def)

lemma fl_add_sample [simp]: "fl_add ieee_floats = np_add32"
  by (simp add: ieee_floats_def)

lemma py_truediv_1000: "py_truediv 1000 10000 = Inr (3602879701896397 / 36028797018963968)"
  using double_tenth by (simp add: py_truediv_def)

lemma py_truediv_2000: "py_truediv 2000 10000 = Inr (3602879701896397 / 18014398509481984)"
  using double_fifth by (simp add: py_truediv_def)

lemma py_truediv_625: "py_truediv 625 10000 = Inr (1 / 16)"
  using double_sixteenth by (simp add: py_truediv_def)

lemma py_truediv_million: "py_truediv 1000000 10000 = Inr 100"
  using double_hundred by (simp add: py_truediv_def)

lemma py_truediv_huge: "py_truediv (10 ^ 320) 10000 = Inl OverflowError"
  by (simp add: py_truediv_def)



lemma to_float32_tenth:
  "to_float32 (3602879701896397 / 36028797018963968) = 13421773 / 134217728"
  by (simp add: to_float32_def float32_tenth)

lemma to_float32_sixteenth: "to_float32 (1 / 16) = 1 / 16"
  by (simp add: to_float32_def float32_sixteenth)

lemma np_add32_half_tenth:
  "np_add32 (1 / 2) (3602879701896397 / 36028797018963968) = 5033165 / 8388608"
proof -
  have "to_float32 (1 / 2 + 13421773 / 134217728) = 5033165 / 8388608"
    using float32_half_plus_tenth by (simp add: to_float32_def)
  then show ?thesis by (simp add: np_add32_def to_float32_tenth)
qed

lemma np_add32_half_sixteenth: "np_add32 (1 / 2) (1 / 16) = 9 / 16"
proof -
  have "to_float32 (1 / 2 + 1 / 16) = 9 / 16"
    using float32_nine_sixteenths by (simp add: to_float32_def)
  then show ?thesis by (simp add: np_add32_def to_float32_sixteenth)
qed



section \<open>Properties of search\<close>

subsection \<open>Sorting\<close>

lemma sort_reverse_Inr:
  "\<forall>x\<in>set xs. key x \<noteq> None \<Longrightarrow>
   sort_reverse key xs = Inr (rev (sort_key (\<lambda>x. the (key x)) (rev xs)))"
  by (auto simp: sort_reverse_def)

lemma sort_reverse_set: "sort_reverse key xs = Inr ys \<Longrightarrow> set ys = set xs"
  by (auto simp: sort_reverse_def split: if_splits)

lemma sort_reverse_length: "sort_reverse key xs = Inr ys \<Longrightarrow> length ys = length xs"
  by (auto simp: sort_reverse_def split: if_splits)


lemma sort_reverse_stable:
  assumes "sort_reverse key xs = Inr ys"
  shows "filter (\<lambda>x. key x = Some v) ys = filter (\<lambda>x. key x = Some v) xs"
proof -
  let ?k = "\<lambda>x. the (key x)"
  from assms have ys: "ys = rev (sort_key ?k (rev xs))" and some: "\<forall>x\<in>set xs. key x \<noteq> None"
    by (auto simp: sort_reverse_def split: if_splits)
  have eq: "\<And>zs. set zs \<subseteq> set xs \<Longrightarrow>
      filter (\<lambda>x. key x = Some v) zs = filter (\<lambda>x. ?k x = v) zs"
    using some by (intro filter_cong) auto
  have "filter (\<lambda>x. ?k x = v) ys = rev (filter (\<lambda>x. ?k x = v) (sort_key ?k (rev xs)))"
    unfolding ys by (simp add: rev_filter)
  also have "\<dots> = rev (filter (\<lambda>x. ?k x = v) (rev xs))"
    by (simp only: sort_key_stable)
  also have "\<dots> = filter (\<lambda>x. ?k x = v) xs" by (simp add: rev_filter)
  finally show ?thesis using eq[of ys] eq[of xs] ys by simp
qed

subsection \<open>The loop of search\<close>

lemma popularity_bonus_fields [simp]:
  "popularity_bonus u fl (t\<lparr>relevance_score := a\<rparr>) = popularity_bonus u fl t"
  "popularity_bonus u fl (t\<lparr>rank := b\<rparr>) = popularity_bonus u fl t"
  "popularity_bonus u fl (t\<lparr>final_score := c\<rparr>) = popularity_bonus u fl t"
  by (simp_all add: popularity_bonus_def)

lemma replace_scan_single_empty: "replace_scan [c] [] s = filter (\<lambda>x. x \<noteq> c) s"
  by (induction s) auto

lemma strip_plus_comma:
  "py_replace [44] [] (py_replace [43] [] s) = filter (\<lambda>c. c \<noteq> 43 \<and> c \<noteq> 44) s"
  by (simp add: py_replace_def replace_scan_single_empty conj_commute)

lemma py_int_empty: "py_int u [] = None"
  by (simp add: py_int_def)

lemma popularity_bonus_spec:
  "popularity_bonus u fl t = bonus_of_popularity u fl (popularity t)"
proof (cases "popularity t = []")
  case True
  then show ?thesis
    by (simp add: popularity_bonus_def bonus_of_popularity_def parsed_popularity_def py_int_empty)
next
  case False
  then show ?thesis
    by (simp add: popularity_bonus_def bonus_of_popularity_def parsed_popularity_def
        strip_plus_comma)
qed

lemma search_loop_step:
  "search_loop u fl tools i ((score, idx) # hits) results =
     (if int (length tools) \<le> idx then search_loop u fl tools (i + 1) hits results
      else case py_getitem tools idx of
             Inl err \<Rightarrow> Inl err
           | Inr t \<Rightarrow> search_loop u fl tools (i + 1) hits (results @ [scored u fl t score i]))"
  by (simp add: scored_def Let_def split: sum.split)

lemma search_loop_acc:
  "search_loop u fl tools i hits acc = Inr res \<Longrightarrow> set acc \<subseteq> set res"
proof (induction hits arbitrary: i acc)
  case Nil
  then show ?case by simp
next
  case (Cons h hits)
  obtain s j where h: "h = (s, j)" by (cases h)
  from Cons.prems show ?case
    unfolding h search_loop_step
    by (auto split: if_splits sum.splits dest!: Cons.IH)
qed

lemma search_loop_mem:
  "search_loop u fl tools i hits acc = Inr res \<Longrightarrow> n < length hits \<Longrightarrow> hits ! n = (s, j)
   \<Longrightarrow> j < int (length tools)
   \<Longrightarrow> \<exists>t. py_getitem tools j = Inr t \<and> scored u fl t s (i + n) \<in> set res"
proof (induction hits arbitrary: i acc n)
  case Nil
  then show ?case by simp
next
  case (Cons h hits)
  obtain s' j' where h: "h = (s', j')" by (cases h)
  show ?case
  proof (cases n)
    case 0
    with Cons.prems h have eq: "s' = s" "j' = j" by auto
    from Cons.prems(1,4) obtain t where t: "py_getitem tools j = Inr t"
      and r: "search_loop u fl tools (i + 1) hits (acc @ [scored u fl t s i]) = Inr res"
      unfolding h eq search_loop_step by (auto split: sum.splits)
    from search_loop_acc[OF r] have "scored u fl t s i \<in> set res" by auto
    with t 0 show ?thesis by auto
  next
    case (Suc m)
    with Cons.prems have m: "m < length hits" "hits ! m = (s, j)" by auto
    from Cons.prems(1) obtain acc' where "search_loop u fl tools (i + 1) hits acc' = Inr res"
      unfolding h search_loop_step by (auto split: if_splits sum.splits)
    from Cons.IH[OF this m Cons.prems(4)] Suc show ?thesis by simp
  qed
qed

lemma py_getitem_in_range:
  "- int (length xs) \<le> j \<Longrightarrow> j < int (length xs) \<Longrightarrow>
   py_getitem xs j = Inr (xs ! nat (if j < 0 then int (length xs) + j else j))"
  by (simp add: py_getitem_def)

lemma search_loop_total:
  "\<forall>(s, j)\<in>set hits. - int (length tools) \<le> j \<Longrightarrow> \<exists>res. search_loop u fl tools i hits acc = Inr res"
proof (induction hits arbitrary: i acc)
  case Nil
  then show ?case by simp
next
  case (Cons h hits)
  obtain s j where h: "h = (s, j)" by (cases h)
  from Cons.prems h have j: "- int (length tools) \<le> j" by auto
  from Cons.prems have rest: "\<forall>(s, j)\<in>set hits. - int (length tools) \<le> j" by auto
  show ?case
  proof (cases "int (length tools) \<le> j")
    case True
    then show ?thesis unfolding h search_loop_step using Cons.IH[OF rest] by simp
  next
    case False
    with j obtain t where "py_getitem tools j = Inr t"
      using py_getitem_in_range[of tools j] by auto
    with False show ?thesis unfolding h search_loop_step using Cons.IH[OF rest] by simp
  qed
qed

lemma search_loop_results:
  "search_loop u fl tools i hits acc = Inr res \<Longrightarrow> r \<in> set res \<Longrightarrow>
   r \<in> set acc \<or> (\<exists>t s n. t \<in> set tools \<and> r = scored u fl t s n)"
proof (induction hits arbitrary: i acc)
  case Nil
  then show ?case by simp
next
  case (Cons h hits)
  obtain s j where h: "h = (s, j)" by (cases h)
  show ?case
  proof (cases "int (length tools) \<le> j")
    case True
    with Cons.prems have "search_loop u fl tools (i + 1) hits acc = Inr res"
      unfolding h search_loop_step by simp
    from Cons.IH[OF this Cons.prems(2)] show ?thesis .
  next
    case False
    with Cons.prems(1) obtain t where t: "py_getitem tools j = Inr t"
      and r: "search_loop u fl tools (i + 1) hits (acc @ [scored u fl t s i]) = Inr res"
      unfolding h search_loop_step by (auto split: sum.splits)
    from t have "t \<in> set tools" by (auto simp: py_getitem_def split: if_splits)
    with Cons.IH[OF r Cons.prems(2)] show ?thesis by auto
  qed
qed

lemma py_strip_blank:
  assumes "\<forall>c\<in>set query. py_isspace u c"
  shows "py_strip u query = []"
proof -
  from assms have "dropWhile (py_isspace u) query = []" by (simp add: dropWhile_eq_Nil_conv)
  then show ?thesis unfolding py_strip_def by (simp only: rev.simps dropWhile.simps)
qed

text \<open>
  C3 (as amended). For a query that is empty or consists only of whitespace, \<open>search\<close>
  returns the empty list and raises nothing, before any collaborator is called. The guard of
  \<open>search\<close> tests the raw query, not the preprocessed one.
\<close>

theorem search_blank_query:
  "\<forall>c\<in>set query. py_isspace u c \<Longrightarrow> search u fl nearest e query top_k = Inr []"
  by (simp add: search_def py_strip_blank)

text \<open>
  The amended C3 at the queries \<open>space tab space\<close> and the empty string.
\<close>

theorem search_blank_query_witness:
  "py_isspace sample_runtime 32 \<and> py_isspace sample_runtime 9 \<and>
   search sample_runtime ieee_floats (fixed_hits [(1 / 2, 0)]) (engine_of two_tools) [32, 9, 32] 10 = Inr [] \<and>
   search sample_runtime ieee_floats (fixed_hits [(1 / 2, 0)]) (engine_of two_tools) [] 10 = Inr []"
proof -
  have h: "\<forall>c\<in>set [32, 9, 32]. py_isspace sample_runtime c" by (simp add: py_isspace_def)
  have h0: "\<forall>c\<in>set ([] :: pystr). py_isspace sample_runtime c" by simp
  have "py_isspace sample_runtime 32" "py_isspace sample_runtime 9"
    by (simp_all add: py_isspace_def)
  then show ?thesis
    using search_blank_query[OF h, where fl = ieee_floats
        and nearest = "fixed_hits [(1 / 2, 0)]" and e = "engine_of two_tools" and top_k = 10]
      search_blank_query[OF h0, where fl = ieee_floats
        and nearest = "fixed_hits [(1 / 2, 0)]" and e = "engine_of two_tools" and top_k = 10]
    by simp
qed

lemma corpus_engine_of [simp]: "corpus (engine_of tools) = tools"
  by (rule nth_equalityI) (simp_all add: corpus_def engine_of_def)

lemma index_engine_of [simp]:
  "index (engine_of tools) =
     Some \<lparr>nrows = length tools, ncols = 1, cells = replicate (length tools) 1\<rparr>"
  by (simp add: engine_of_def)

text \<open>
  C3 as stated fails: the query \<open>!!!\<close> is preprocessed to the empty string, yet it passes
  the guard, is handed to the index, and \<open>search\<close> returns what the index found.
\<close>

theorem search_punctuation_counterexample:
  "preprocess_query sample_runtime [33, 33, 33] = [] \<and>
   search sample_runtime ieee_floats (fixed_hits [(1 / 2, 0)]) (engine_of two_tools) [33, 33, 33] 10 =
     Inr [(new_tool [65] [] [])\<lparr>rank := Some 1, relevance_score := Some (1 / 2),
                                final_score := Some (1 / 2)\<rparr>]"
  by (simp add: search_def fixed_hits_def py_strip_def py_isspace_def py_isword_def
      preprocess_query_def replace_all_def hebrew_to_english_def py_replace_def sub_nonword_def
      two_tools_def py_getitem_def sort_reverse_def popularity_bonus_def add_bonus_def
      new_tool_def)

lemma search_unfold:
  assumes "py_strip u query \<noteq> []" "index e = Some ix"
  shows "search u fl nearest e query top_k =
     (case search_loop u fl (corpus e) 0 (nearest ix (preprocess_query u query) top_k) [] of
        Inl err \<Rightarrow> Inl err | Inr results \<Rightarrow> sort_reverse final_score results)"
  using assms by (simp add: search_def)

lemma search_results:
  assumes "search u fl nearest e query top_k = Inr results" "r \<in> set results"
  shows "\<exists>t s n. t \<in> set (corpus e) \<and> r = scored u fl t s n"
proof (cases "py_strip u query = []")
  case True
  with assms show ?thesis by (simp add: search_def)
next
  case False
  with assms(1) obtain ix loop where loop:
    "search_loop u fl (corpus e) 0 (nearest ix (preprocess_query u query) top_k) [] = Inr loop"
    and sorted: "sort_reverse final_score loop = Inr results"
    by (auto simp: search_def split: option.splits sum.splits)
  from sorted assms(2) have "r \<in> set loop" using sort_reverse_set by blast
  with search_loop_results[OF loop] show ?thesis by auto
qed


text \<open>
  C5 (as amended). Every result of \<open>search\<close> has \<open>final_score = relevance_score + bonus\<close>,
  the sum being the float that the addition of the runtime returns (\<open>fl_add\<close>, which rounds:
  in \<open>float32\<close> \<open>0.5 + 0.1\<close> is \<open>5033165 / 8388608\<close>). The bonus is the int 0, which leaves
  the score as it is, when the popularity, stripped of \<open>+\<close> and \<open>,\<close>, does not parse as an
  integer; it is \<open>min(parsed / 10000, 0.1)\<close> when it parses and the division returns a float;
  and it is 0 again when the division raises (the bare \<open>except\<close> swallows the OverflowError).
  For the popularity \<open>1,000,000\<close> the bonus is exactly the float \<open>0.1\<close>: in every float
  arithmetic where the quotient is at least \<open>0.1\<close>, and in IEEE doubles, where it is the
  double nearest to one tenth.
\<close>

theorem search_final_score:
  "(search u fl nearest e query top_k = Inr results \<and> r \<in> set results \<longrightarrow>
      (\<exists>score. relevance_score r = Some score \<and>
         final_score r =
           Some (case bonus_of_popularity u fl (popularity r) of
                   None \<Rightarrow> score
                 | Some b \<Rightarrow> fl_add fl score b))) \<and>
   ((int_max_str_digits u = 0 \<or> 7 \<le> int_max_str_digits u) \<and>
    fl_truediv fl 1000000 10000 = Inr q \<and> fl_tenth fl \<le> q \<longrightarrow>
      bonus_of_popularity u fl [49, 44, 48, 48, 48, 44, 48, 48, 48] = Some (fl_tenth fl)) \<and>
   (int_max_str_digits u = 0 \<or> 7 \<le> int_max_str_digits u \<longrightarrow>
      bonus_of_popularity u ieee_floats [49, 44, 48, 48, 48, 44, 48, 48, 48] =
        Some (round_to 53 (- 1074) (1 / 10)))"
proof (intro conjI impI)
  assume "search u fl nearest e query top_k = Inr results \<and> r \<in> set results"
  then obtain t s n where "r = scored u fl t s n" using search_results by blast
  then show "\<exists>score. relevance_score r = Some score \<and>
         final_score r =
           Some (case bonus_of_popularity u fl (popularity r) of
                   None \<Rightarrow> score
                 | Some b \<Rightarrow> fl_add fl score b)"
    by (simp add: scored_def popularity_bonus_spec add_bonus_def)
next
  assume a: "(int_max_str_digits u = 0 \<or> 7 \<le> int_max_str_digits u) \<and>
    fl_truediv fl 1000000 10000 = Inr q \<and> fl_tenth fl \<le> q"
  then have "parsed_popularity u [49, 44, 48, 48, 48, 44, 48, 48, 48] = Some 1000000"
    by (auto simp: parsed_popularity_def py_int_def to_ascii_def c_isspace_def ascii_digit_def)
  with a show "bonus_of_popularity u fl [49, 44, 48, 48, 48, 44, 48, 48, 48] = Some (fl_tenth fl)"
    by (auto simp: bonus_of_popularity_def min_def)
next
  assume a: "int_max_str_digits u = 0 \<or> 7 \<le> int_max_str_digits u"
  then have "parsed_popularity u [49, 44, 48, 48, 48, 44, 48, 48, 48] = Some 1000000"
    by (auto simp: parsed_popularity_def py_int_def to_ascii_def c_isspace_def ascii_digit_def)
  then show "bonus_of_popularity u ieee_floats [49, 44, 48, 48, 48, 44, 48, 48, 48] =
        Some (round_to 53 (- 1074) (1 / 10))"
    by (simp add: bonus_of_popularity_def py_truediv_million double_tenth ieee_floats_def)
qed

subsection \<open>Bonuses of the example corpora\<close>

lemma bonus_empty: "bonus_of_popularity u fl [] = None"
  by (simp add: bonus_of_popularity_def parsed_popularity_def py_int_empty)

lemma parse_1000_plus: "parsed_popularity sample_runtime [49, 44, 48, 48, 48, 43] = Some 1000"
  by (simp add: parsed_popularity_def py_int_def sample_runtime_def to_ascii_def c_isspace_def
      ascii_digit_def)

lemma parse_625: "parsed_popularity sample_runtime [54, 50, 53] = Some 625"
  by (simp add: parsed_popularity_def py_int_def sample_runtime_def to_ascii_def c_isspace_def
      ascii_digit_def)

lemma parse_1000: "parsed_popularity sample_runtime [49, 48, 48, 48] = Some 1000"
  by (simp add: parsed_popularity_def py_int_def sample_runtime_def to_ascii_def c_isspace_def
      ascii_digit_def)

lemma parse_2000: "parsed_popularity sample_runtime [50, 48, 48, 48] = Some 2000"
  by (simp add: parsed_popularity_def py_int_def sample_runtime_def to_ascii_def c_isspace_def
      ascii_digit_def)

lemma bonus_1000_plus:
  "bonus_of_popularity sample_runtime ieee_floats [49, 44, 48, 48, 48, 43] =
     Some (3602879701896397 / 36028797018963968)"
  by (simp add: bonus_of_popularity_def parse_1000_plus py_truediv_1000 fl_tenth_sample)

lemma bonus_1000:
  "bonus_of_popularity sample_runtime ieee_floats [49, 48, 48, 48] =
     Some (3602879701896397 / 36028797018963968)"
  by (simp add: bonus_of_popularity_def parse_1000 py_truediv_1000 fl_tenth_sample)

lemma bonus_2000:
  "bonus_of_popularity sample_runtime ieee_floats [50, 48, 48, 48] =
     Some (3602879701896397 / 36028797018963968)"
  by (simp add: bonus_of_popularity_def parse_2000 py_truediv_2000 fl_tenth_sample)

lemma bonus_625:
  "bonus_of_popularity sample_runtime ieee_floats [54, 50, 53] = Some (1 / 16)"
  by (simp add: bonus_of_popularity_def parse_625 py_truediv_625 fl_tenth_sample)

lemmas search_eval =
  search_def fixed_hits_def py_strip_def py_isspace_def py_getitem_def sort_reverse_def
  popularity_bonus_spec add_bonus_def new_tool_def bonus_empty bonus_1000_plus bonus_1000
  bonus_2000 bonus_625 np_add32_half_tenth np_add32_half_sixteenth

lemma search_two_tools:
  "search sample_runtime ieee_floats (fixed_hits [(1 / 2, 0), (1 / 2, 1)])
       (engine_of two_tools) [97, 105] 2 =
     Inr [(new_tool [66] [] [49, 44, 48, 48, 48, 43])
            \<lparr>rank := Some 2, relevance_score := Some (1 / 2),
             final_score := Some (5033165 / 8388608)\<rparr>,
          (new_tool [65] [] [])
            \<lparr>rank := Some 1, relevance_score := Some (1 / 2), final_score := Some (1 / 2)\<rparr>]"
  by (simp add: search_eval two_tools_def)

text \<open>
  The amended C5 at a corpus of two tools, one with popularity \<open>1,000+\<close>, in IEEE arithmetic:
  the relevance \<open>0.5\<close> and the bonus \<open>0.1\<close> give the \<open>float32\<close> sum \<open>5033165 / 8388608\<close>.
\<close>

theorem search_final_score_witness:
  "search sample_runtime ieee_floats (fixed_hits [(1 / 2, 0), (1 / 2, 1)])
       (engine_of two_tools) [97, 105] 2 =
     Inr [(new_tool [66] [] [49, 44, 48, 48, 48, 43])
            \<lparr>rank := Some 2, relevance_score := Some (1 / 2),
             final_score := Some (5033165 / 8388608)\<rparr>,
          (new_tool [65] [] [])
            \<lparr>rank := Some 1, relevance_score := Some (1 / 2), final_score := Some (1 / 2)\<rparr>] \<and>
   bonus_of_popularity sample_runtime ieee_floats [49, 44, 48, 48, 48, 43] =
     Some (3602879701896397 / 36028797018963968) \<and>
   fl_add ieee_floats (1 / 2) (3602879701896397 / 36028797018963968) = 5033165 / 8388608 \<and>
   7 \<le> int_max_str_digits sample_runtime \<and>
   fl_truediv ieee_floats 1000000 10000 = Inr 100 \<and>
   fl_tenth ieee_floats \<le> 100 \<and>
   bonus_of_popularity sample_runtime ieee_floats [49, 44, 48, 48, 48, 44, 48, 48, 48] =
     Some (fl_tenth ieee_floats)"
proof -
  let ?b = "(new_tool [66] [] [49, 44, 48, 48, 48, 43])
            \<lparr>rank := Some 2, relevance_score := Some (1 / 2),
             final_score := Some (5033165 / 8388608)\<rparr>"
  let ?a = "(new_tool [65] [] [])
            \<lparr>rank := Some 1, relevance_score := Some (1 / 2), final_score := Some (1 / 2)\<rparr>"
  have d: "7 \<le> int_max_str_digits sample_runtime" by (simp add: sample_runtime_def)
  have m: "?b \<in> set [?b, ?a]" by simp
  have q: "fl_truediv ieee_floats 1000000 10000 = Inr 100" by (simp add: py_truediv_million)
  have t: "fl_tenth ieee_floats \<le> 100" by (simp add: fl_tenth_sample)
  have a: "fl_add ieee_floats (1 / 2) (3602879701896397 / 36028797018963968) =
      5033165 / 8388608" by (simp add: np_add32_half_tenth)
  from search_final_score[of sample_runtime ieee_floats "fixed_hits [(1 / 2, 0), (1 / 2, 1)]"
      "engine_of two_tools" "[97, 105]" 2 "[?b, ?a]" ?b 100] search_two_tools m d q t
  have "bonus_of_popularity sample_runtime ieee_floats [49, 44, 48, 48, 48, 44, 48, 48, 48] =
     Some (fl_tenth ieee_floats)"
    by blast
  with search_two_tools bonus_1000_plus a d q t show ?thesis by blast
qed

lemma int_digits_digit:
  "ascii_digit c \<Longrightarrow> int_digits acc (c # cs) = int_digits (10 * acc + (c - 48)) cs"
  by (cases cs) simp_all

lemma int_digits_zeros: "int_digits acc (replicate n 48) = Some (acc * 10 ^ n)"
proof (induction n arbitrary: acc)
  case 0
  then show ?case by simp
next
  case (Suc n)
  have "ascii_digit 48" by (simp add: ascii_digit_def)
  then show ?case by (simp add: int_digits_digit Suc)
qed

lemma strip_no_space:
  assumes "s \<noteq> []" "\<not> P (hd s)" "\<not> P (last s)"
  shows "rev (dropWhile P (rev (dropWhile P s))) = s"
proof -
  from assms have 1: "dropWhile P s = s" by (simp add: dropWhile_eq_self_iff)
  from assms have "\<not> P (hd (rev s))" by (simp add: hd_rev)
  then have "dropWhile P (rev s) = rev s" by (simp add: dropWhile_eq_self_iff)
  with 1 show ?thesis by simp
qed

lemma py_int_huge: "py_int sample_runtime huge_popularity = Some (10 ^ 320)"
proof -
  have m: "map (to_ascii sample_runtime) huge_popularity = huge_popularity"
    by (simp add: huge_popularity_def to_ascii_def)
  have s: "rev (dropWhile c_isspace (rev (dropWhile c_isspace huge_popularity))) = huge_popularity"
    by (rule strip_no_space) (simp_all add: huge_popularity_def c_isspace_def)
  have f: "filter ascii_digit huge_popularity = huge_popularity"
    by (simp add: huge_popularity_def ascii_digit_def)
  have l: "length huge_popularity = 321" by (simp add: huge_popularity_def)
  have d: "int_digits (49 - 48) (replicate 320 48) = Some (10 ^ 320)"
    by (simp add: int_digits_zeros)
  have "py_int sample_runtime huge_popularity =
      map_option (\<lambda>n. int n) (int_digits (49 - 48) (replicate 320 48))"
    unfolding py_int_def m Let_def s
    by (simp add: f l) (simp add: huge_popularity_def ascii_digit_def sample_runtime_def)
  then show ?thesis by (simp only: d) simp
qed

lemma huge_no_plus_comma:
  "filter (\<lambda>c. c \<noteq> 43 \<and> c \<noteq> 44) huge_popularity = huge_popularity"
  by (simp add: huge_popularity_def)

lemma parse_huge: "parsed_popularity sample_runtime huge_popularity = Some (10 ^ 320)"
  by (simp add: parsed_popularity_def huge_no_plus_comma py_int_huge)

lemma bonus_huge: "bonus_of_popularity sample_runtime ieee_floats huge_popularity = None"
  unfolding bonus_of_popularity_def
  by (simp only: parse_huge option.case fl_truediv_sample py_truediv_huge sum.case)

text \<open>
  C5 as stated fails: a popularity of 321 digits parses as the integer \<open>10^320\<close>, for which
  \<open>min(parsed / 10000, 0.1)\<close> is 0.1, but the division raises OverflowError, the bonus
  stays 0 and \<open>final_score\<close> equals \<open>relevance_score\<close>.
\<close>

theorem search_huge_popularity_counterexample:
  "parsed_popularity sample_runtime huge_popularity = Some (10 ^ 320) \<and>
   fl_truediv ieee_floats (10 ^ 320) 10000 = Inl OverflowError \<and>
   search sample_runtime ieee_floats (fixed_hits [(1 / 2, 0)])
       (engine_of [new_tool [65] [] huge_popularity]) [97, 105] 1 =
     Inr [(new_tool [65] [] huge_popularity)
            \<lparr>rank := Some 1, relevance_score := Some (1 / 2), final_score := Some (1 / 2)\<rparr>] \<and>
   fl_add ieee_floats (1 / 2) (fl_tenth ieee_floats) = 5033165 / 8388608"
proof -
  have 2: "fl_truediv ieee_floats (10 ^ 320) 10000 = Inl OverflowError"
    by (simp only: fl_truediv_sample py_truediv_huge)
  have p: "popularity (new_tool [65] [] huge_popularity) = huge_popularity"
    by (simp add: new_tool_def)
  have 3: "search sample_runtime ieee_floats (fixed_hits [(1 / 2, 0)])
       (engine_of [new_tool [65] [] huge_popularity]) [97, 105] 1 =
     Inr [(new_tool [65] [] huge_popularity)
            \<lparr>rank := Some 1, relevance_score := Some (1 / 2), final_score := Some (1 / 2)\<rparr>]"
    by (simp add: search_def fixed_hits_def py_strip_def py_isspace_def py_getitem_def
        sort_reverse_def popularity_bonus_spec add_bonus_def p bonus_huge)
  have 4: "fl_add ieee_floats (1 / 2) (fl_tenth ieee_floats) = 5033165 / 8388608"
    by (simp add: fl_tenth_sample np_add32_half_tenth)
  from parse_huge 2 3 4 show ?thesis by blast
qed

text \<open>
  C10 (as amended). A negative row index from the similarity index (FAISS pads with \<open>-1\<close>
  when it holds fewer than \<open>top_k\<close> vectors) is not discarded: the check before the lookup
  rejects only indices at or beyond the corpus length. If no index returned by the
  similarity index lies below \<open>-len(corpus)\<close>, then for a hit \<open>(score, -m)\<close> with
  \<open>1 \<le> m \<le> len(corpus)\<close> at position \<open>n\<close>, \<open>search\<close> returns a result copied from the
  record \<open>m\<close> places from the end of the corpus, with that score and rank \<open>n + 1\<close>.
\<close>

theorem search_negative_index:
  assumes "py_strip u query \<noteq> []"
    and "index e = Some ix"
    and "nearest ix (preprocess_query u query) top_k = hits"
    and "\<forall>(s, j)\<in>set hits. - int (length (corpus e)) \<le> j"
    and "n < length hits"
    and "hits ! n = (score, - int m)"
    and "1 \<le> m"
    and "m \<le> length (corpus e)"
  shows "\<exists>results. search u fl nearest e query top_k = Inr results \<and>
           (corpus e ! (length (corpus e) - m))
             \<lparr>relevance_score := Some score, rank := Some (n + 1),
              final_score :=
                Some (add_bonus fl score
                        (popularity_bonus u fl (corpus e ! (length (corpus e) - m))))\<rparr>
           \<in> set results"
proof -
  let ?tools = "corpus e"
  from search_loop_total[OF assms(4)] obtain loop where
    loop: "search_loop u fl ?tools 0 hits [] = Inr loop" by blast
  have lt: "- int m < int (length ?tools)" using assms(7) by simp
  from search_loop_mem[OF loop assms(5,6) lt] obtain t where
    t: "py_getitem ?tools (- int m) = Inr t" and mem: "scored u fl t score (0 + n) \<in> set loop"
    by blast
  have "py_getitem ?tools (- int m) = Inr (?tools ! (length ?tools - m))"
    using assms(7,8) by (simp add: py_getitem_def nat_diff_distrib' of_nat_diff)
  with t have t_eq: "t = ?tools ! (length ?tools - m)" by simp
  have "\<forall>x\<in>set loop. final_score x \<noteq> None"
  proof
    fix x assume "x \<in> set loop"
    with search_loop_results[OF loop, of x] obtain t' s' n' where "x = scored u fl t' s' n'"
      by auto
    then show "final_score x \<noteq> None" by (simp add: scored_def)
  qed
  then obtain results where sorted: "sort_reverse final_score loop = Inr results"
    by (auto simp: sort_reverse_def)
  have "search u fl nearest e query top_k = Inr results"
    using assms(1,2,3) loop sorted by (simp add: search_def)
  moreover from mem sorted have "scored u fl t score n \<in> set results"
    using sort_reverse_set by fastforce
  ultimately show ?thesis unfolding t_eq scored_def by blast
qed

text \<open>
  The amended C10 at a corpus of two tools and the hits \<open>(0.5, 0), (0.5, -1)\<close>: the second
  hit yields a result copied from the last tool of the corpus.
\<close>

theorem search_negative_index_witness:
  "py_strip sample_runtime [97, 105] \<noteq> [] \<and>
   - int (length (corpus (engine_of two_tools))) \<le> 0 \<and>
   - int (length (corpus (engine_of two_tools))) \<le> - 1 \<and>
   (\<exists>results.
      search sample_runtime ieee_floats (fixed_hits [(1 / 2, 0), (1 / 2, - 1)])
        (engine_of two_tools) [97, 105] 2 = Inr results \<and>
      (new_tool [66] [] [49, 44, 48, 48, 48, 43])
        \<lparr>relevance_score := Some (1 / 2), rank := Some 2,
         final_score := Some (5033165 / 8388608)\<rparr>
      \<in> set results)"
proof -
  let ?e = "engine_of two_tools"
  let ?hits = "[(1 / 2, 0), (1 / 2, - 1)] :: (real \<times> int) list"
  let ?ix = "\<lparr>nrows = length two_tools, ncols = 1, cells = replicate (length two_tools) (1::real)\<rparr>"
  have 1: "py_strip sample_runtime [97, 105] \<noteq> []"
    by (simp add: py_strip_def py_isspace_def)
  have 2: "index ?e = Some ?ix" by simp
  have 3: "fixed_hits ?hits ?ix (preprocess_query sample_runtime [97, 105]) 2 = ?hits"
    by (simp add: fixed_hits_def)
  have 4: "\<forall>(s, j)\<in>set ?hits. - int (length (corpus ?e)) \<le> j"
    by (simp add: two_tools_def)
  have 5: "1 < length ?hits" by simp
  have 6: "?hits ! 1 = (1 / 2, - int 1)" by simp
  have 7: "(1::nat) \<le> 1" by simp
  have 8: "1 \<le> length (corpus ?e)" by (simp add: two_tools_def)
  from search_negative_index[where u = sample_runtime and query = "[97, 105]" and e = ?e
      and ix = ?ix and nearest = "fixed_hits ?hits" and top_k = 2 and hits = ?hits and n = 1
      and score = "1 / 2" and m = 1 and fl = ieee_floats, OF 1 2 3 4 5 6 7 8]
  show ?thesis using 1 4
    by (simp add: two_tools_def numeral_2_eq_2 popularity_bonus_spec add_bonus_def new_tool_def
        bonus_1000_plus np_add32_half_tenth)
qed

text \<open>
  C10 as stated fails: on a corpus of two tools the index \<open>-1\<close> is within the range of the
  claim, but when the similarity index also returns \<open>-3\<close> the lookup of that index raises
  IndexError, which \<open>search\<close> does not catch, and no result is produced for \<open>-1\<close> either.
\<close>

theorem search_index_error_counterexample:
  "search sample_runtime ieee_floats (fixed_hits [(1 / 2, - 1), (1 / 2, - 3)])
     (engine_of two_tools) [97, 105] 2 = Inl IndexError"
  by (simp add: search_eval two_tools_def)






text \<open>
  C1. The results of \<open>search\<close> are sorted by \<open>final_score\<close>, descending and stably
  (\<open>search_descending\<close>, \<open>search_stable\<close>), but \<open>rank\<close> is assigned inside the loop, before
  the sort, from the position of the hit in the index's answer. With two hits of equal
  relevance 0.5, the first for a tool without popularity and the second for a tool with
  popularity \<open>1,000+\<close>, the second hit gets the higher final score (the \<open>float32\<close> sum of
  0.5 and 0.1) and is sorted to the front carrying rank 2, and the record in second place
  carries rank 1. \<open>get_popular_tools\<close> numbers its records after sorting.
\<close>

theorem search_rank_before_sort:
  "search sample_runtime ieee_floats (fixed_hits [(1 / 2, 0), (1 / 2, 1)])
       (engine_of two_tools) [97, 105] 2 =
     Inr [(new_tool [66] [] [49, 44, 48, 48, 48, 43])
            \<lparr>rank := Some 2, relevance_score := Some (1 / 2),
             final_score := Some (5033165 / 8388608)\<rparr>,
          (new_tool [65] [] [])
            \<lparr>rank := Some 1, relevance_score := Some (1 / 2), final_score := Some (1 / 2)\<rparr>]"
  by (simp add: search_eval two_tools_def)

lemma search_stable:
  assumes "search u fl nearest e query top_k = Inr results" "py_strip u query \<noteq> []"
    "index e = Some ix"
  shows "\<exists>loop. search_loop u fl (corpus e) 0 (nearest ix (preprocess_query u query) top_k) [] =
            Inr loop \<and>
           filter (\<lambda>r. final_score r = Some v) results =
           filter (\<lambda>r. final_score r = Some v) loop"
proof -
  from assms obtain loop where
    loop: "search_loop u fl (corpus e) 0 (nearest ix (preprocess_query u query) top_k) [] =
      Inr loop"
    and sorted: "sort_reverse final_score loop = Inr results"
    by (auto simp: search_def split: sum.splits)
  from sort_reverse_stable[OF sorted] loop show ?thesis by blast
qed

lemma tools_data_engine_of [simp]: "tools_data (engine_of tools) = [0 ..< length tools]"
  by (simp add: engine_of_def)

text \<open>
  C2. On the corpus of the repository's test (\<open>Tool1\<close>, \<open>Tool2\<close>) and \<open>count = 2\<close>,
  \<open>get_random_tools\<close> returns the list \<open>tools_data\<close> itself: the returned references are
  the corpus's own dict objects, not copies, and writing \<open>'Changed'\<close> to the name of the first
  returned record changes the first corpus record.
\<close>

theorem get_random_tools_returns_corpus:
  "get_random_tools [] (engine_of test_tools) 2 =
     Inr (tools_data (engine_of test_tools), engine_of test_tools) \<and>
   tools_data (engine_of test_tools) = [0, 1] \<and>
   name (corpus (engine_of test_tools) ! 0) = [84, 111, 111, 108, 49] \<and>
   name (corpus (set_name 0 [67, 104, 97, 110, 103, 101, 100] (engine_of test_tools)) ! 0) =
     [67, 104, 97, 110, 103, 101, 100]"
  by (simp add: get_random_tools_def test_tools_def corpus_def set_name_def engine_of_def
      upt_rec[of 0] upt_rec[of 1] upt_rec[of 2])

section \<open>Properties of the retrieval modes that do not rank by similarity\<close>

lemma category_loop_scores:
  assumes "\<forall>r\<in>set acc. relevance_score r = Some 1 \<and> (\<exists>t\<in>T. final_score r = final_score t)"
    and "set tools \<subseteq> T"
  shows "\<forall>r\<in>set (category_loop u cat top_k tools acc).
           relevance_score r = Some 1 \<and> (\<exists>t\<in>T. final_score r = final_score t)"
  using assms
proof (induction tools arbitrary: acc)
  case Nil
  then show ?case by simp
next
  case (Cons tool rest)
  let ?copy = "tool\<lparr>rank := Some (length acc + 1), relevance_score := Some 1\<rparr>"
  have acc': "\<forall>r\<in>set (acc @ [?copy]).
      relevance_score r = Some 1 \<and> (\<exists>t\<in>T. final_score r = final_score t)"
    using Cons.prems by auto
  have rest: "set rest \<subseteq> T" using Cons.prems by simp
  show ?case
  proof (cases "sublist (str_lower u cat) (str_lower u (category tool))")
    case True
    then show ?thesis
      using acc' Cons.IH[OF acc' rest] by (simp add: Let_def)
  next
    case False
    then show ?thesis using Cons.IH[OF Cons.prems(1) rest] by simp
  qed
qed

lemma number_results_scores:
  "r \<in> set (number_results i ts) \<Longrightarrow>
   relevance_score r = Some 1 \<and> (\<exists>t\<in>set ts. final_score r = final_score t)"
  by (induction ts arbitrary: i) auto

lemma collect_popular_scores:
  "r \<in> set (collect_popular u ts) \<Longrightarrow>
   pop_num r \<noteq> None \<and> (\<exists>t\<in>set ts. final_score r = final_score t)"
  by (induction ts) (auto split: if_splits option.splits)

lemma set_py_take: "set (py_take k xs) \<subseteq> set xs"
  by (auto simp: py_take_def dest: in_set_takeD)

lemma get_popular_tools_scores:
  "\<exists>results. get_popular_tools u e top_k = Inr results \<and>
     (\<forall>r\<in>set results.
        relevance_score r = Some 1 \<and> (\<exists>t\<in>set (corpus e). final_score r = final_score t))"
proof -
  define c where "c = collect_popular u (corpus e)"
  have some: "\<forall>x\<in>set c. pop_num x \<noteq> None"
  proof
    fix x assume "x \<in> set c"
    then have "x \<in> set (collect_popular u (corpus e))" by (simp only: c_def)
    from collect_popular_scores[OF this] show "pop_num x \<noteq> None" by (rule conjunct1)
  qed
  define sorted where "sorted = rev (sort_key (\<lambda>x. the (pop_num x)) (rev c))"
  from some have sorted: "sort_reverse pop_num c = Inr sorted"
    unfolding sorted_def by (rule sort_reverse_Inr)
  have eq: "get_popular_tools u e top_k = Inr (number_results 0 (py_take top_k sorted))"
    unfolding get_popular_tools_def c_def[symmetric] by (simp only: sorted sum.case)
  have "\<forall>r\<in>set (number_results 0 (py_take top_k sorted)).
        relevance_score r = Some 1 \<and> (\<exists>t\<in>set (corpus e). final_score r = final_score t)"
  proof
    fix r assume "r \<in> set (number_results 0 (py_take top_k sorted))"
    from number_results_scores[OF this] obtain t where
      r: "relevance_score r = Some 1" and t1: "t \<in> set (py_take top_k sorted)"
      and t2: "final_score r = final_score t" by (elim conjE bexE)
    from t1 set_py_take have "t \<in> set sorted" by (rule subsetD[rotated])
    then have "t \<in> set c" by (simp only: sort_reverse_set[OF sorted])
    then have "t \<in> set (collect_popular u (corpus e))" by (simp only: c_def)
    from collect_popular_scores[OF this] obtain t' where t': "t' \<in> set (corpus e)"
      and f: "final_score t = final_score t'" by (elim conjE bexE)
    from t2 f have "final_score r = final_score t'" by (rule trans)
    with t' have "\<exists>t\<in>set (corpus e). final_score r = final_score t" by (rule bexI[rotated])
    with r show "relevance_score r = Some 1 \<and>
        (\<exists>t\<in>set (corpus e). final_score r = final_score t)" by (rule conjI)
  qed
  with eq show ?thesis by (intro exI conjI)
qed

lemma mark_sampled_final: "final_score (mark_sampled i rs h a) = final_score (h a)"
  by (induction rs arbitrary: i h) auto

lemma mark_sampled_other: "a \<notin> set rs \<Longrightarrow> mark_sampled i rs h a = h a"
  by (induction rs arbitrary: i h) auto

lemma mark_sampled_keeps:
  "relevance_score (h a) = Some 1 \<Longrightarrow> relevance_score (mark_sampled i rs h a) = Some 1"
  by (induction rs arbitrary: i h) auto

lemma mark_sampled_relevance:
  "a \<in> set rs \<Longrightarrow> relevance_score (mark_sampled i rs h a) = Some 1"
proof (induction rs arbitrary: i h)
  case Nil
  then show ?case by simp
next
  case (Cons r rs)
  show ?case
  proof (cases "a = r")
    case True
    then show ?thesis by (simp add: mark_sampled_keeps)
  next
    case False
    with Cons show ?thesis by simp
  qed
qed

text \<open>
  C4 (as amended). Every record returned by \<open>search_by_category\<close>, by \<open>get_popular_tools\<close>
  (which always returns) and by \<open>get_random_tools\<close> with \<open>0 \<le> count < len(corpus)\<close> has
  \<open>relevance_score = 1.0\<close>. None of the three assigns \<open>final_score\<close>: a returned record
  has the \<open>final_score\<close> of the corpus record it comes from, which is none for a corpus
  loaded from the database.
\<close>

theorem other_modes_scores:
  "(\<forall>r\<in>set (search_by_category u e cat top_k).
      relevance_score r = Some 1 \<and> (\<exists>t\<in>set (corpus e). final_score r = final_score t)) \<and>
   (\<exists>results. get_popular_tools u e top_k = Inr results \<and>
      (\<forall>r\<in>set results.
         relevance_score r = Some 1 \<and> (\<exists>t\<in>set (corpus e). final_score r = final_score t))) \<and>
   (0 \<le> count \<and> count < int (length (tools_data e)) \<longrightarrow>
      (\<exists>refs e'. get_random_tools picks e count = Inr (refs, e') \<and>
         (\<forall>a\<in>set refs.
            relevance_score (heap e' a) = Some 1 \<and>
            final_score (heap e' a) = final_score (heap e a))))"
proof (intro conjI impI)
  show "\<forall>r\<in>set (search_by_category u e cat top_k).
      relevance_score r = Some 1 \<and> (\<exists>t\<in>set (corpus e). final_score r = final_score t)"
    unfolding search_by_category_def by (rule category_loop_scores) simp_all
  show "\<exists>results. get_popular_tools u e top_k = Inr results \<and>
      (\<forall>r\<in>set results.
         relevance_score r = Some 1 \<and> (\<exists>t\<in>set (corpus e). final_score r = final_score t))"
    by (rule get_popular_tools_scores)
next
  assume "0 \<le> count \<and> count < int (length (tools_data e))"
  then show "\<exists>refs e'. get_random_tools picks e count = Inr (refs, e') \<and>
         (\<forall>a\<in>set refs.
            relevance_score (heap e' a) = Some 1 \<and>
            final_score (heap e' a) = final_score (heap e a))"
    by (simp add: get_random_tools_def Let_def mark_sampled_final mark_sampled_relevance)
qed

lemma by_category_two:
  "search_by_category sample_runtime (engine_of two_tools) [] 5 =
     [(new_tool [65] [] [])\<lparr>rank := Some 1, relevance_score := Some 1\<rparr>,
      (new_tool [66] [] [49, 44, 48, 48, 48, 43])\<lparr>rank := Some 2, relevance_score := Some 1\<rparr>]"
  by (simp add: search_by_category_def two_tools_def sample_runtime_def new_tool_def)

lemma popular_two:
  "get_popular_tools sample_runtime (engine_of two_tools) 5 =
     Inr [(new_tool [66] [] [49, 44, 48, 48, 48, 43])
            \<lparr>pop_num := Some 1000, rank := Some 1, relevance_score := Some 1\<rparr>]"
  by (simp add: get_popular_tools_def two_tools_def new_tool_def sort_reverse_def py_take_def
      py_replace_def py_int_def sample_runtime_def to_ascii_def c_isspace_def ascii_digit_def)

lemma random_two:
  "get_random_tools [1] (engine_of two_tools) 1 =
     Inr ([1], (engine_of two_tools)
       \<lparr>heap := (heap (engine_of two_tools))
          (1 := (heap (engine_of two_tools) 1)\<lparr>rank := Some 1, relevance_score := Some 1\<rparr>)\<rparr>)"
  by (simp add: get_random_tools_def two_tools_def upt_rec[of 0] upt_rec[of 1] upt_rec[of 2])

text \<open>
  The amended C4 at a corpus of two tools: all three modes return a non-empty answer whose
  records have relevance score 1.
\<close>

theorem other_modes_scores_witness:
  "(0::int) \<le> 1 \<and> 1 < int (length (tools_data (engine_of two_tools))) \<and>
   search_by_category sample_runtime (engine_of two_tools) [] 5 \<noteq> [] \<and>
   list_all (\<lambda>r. relevance_score r = Some 1)
     (search_by_category sample_runtime (engine_of two_tools) [] 5) \<and>
   (\<exists>results. get_popular_tools sample_runtime (engine_of two_tools) 5 = Inr results \<and>
      results \<noteq> [] \<and> (\<forall>r\<in>set results. relevance_score r = Some 1)) \<and>
   (\<exists>refs e'. get_random_tools [1] (engine_of two_tools) 1 = Inr (refs, e') \<and> refs \<noteq> [] \<and>
      (\<forall>a\<in>set refs. relevance_score (heap e' a) = Some 1))"
proof -
  let ?e = "engine_of two_tools"
  have h: "(0::int) \<le> 1 \<and> 1 < int (length (tools_data ?e))" by (simp add: two_tools_def)
  note inst = other_modes_scores[of sample_runtime ?e "[]" 5 1 "[1]"]
  from inst have 1: "\<forall>r\<in>set (search_by_category sample_runtime ?e [] 5).
      relevance_score r = Some 1" by blast
  from inst obtain results where
    p: "get_popular_tools sample_runtime ?e 5 = Inr results"
    and pr: "\<forall>r\<in>set results. relevance_score r = Some 1" by blast
  from p have "results \<noteq> []" unfolding popular_two by auto
  with p pr have 2: "\<exists>results. get_popular_tools sample_runtime ?e 5 = Inr results \<and>
      results \<noteq> [] \<and> (\<forall>r\<in>set results. relevance_score r = Some 1)" by blast
  from inst h obtain refs e' where
    g: "get_random_tools [1] ?e 1 = Inr (refs, e')"
    and gr: "\<forall>a\<in>set refs. relevance_score (heap e' a) = Some 1" by blast
  from g have "refs \<noteq> []" unfolding random_two by auto
  with g gr have 3: "\<exists>refs e'. get_random_tools [1] ?e 1 = Inr (refs, e') \<and>
      refs \<noteq> [] \<and> (\<forall>a\<in>set refs. relevance_score (heap e' a) = Some 1)" by blast
  have 0: "search_by_category sample_runtime ?e [] 5 \<noteq> []"
    unfolding by_category_two by simp
  from 1 have l1: "list_all (\<lambda>r. relevance_score r = Some 1)
     (search_by_category sample_runtime ?e [] 5)" by (simp only: list_all_iff)
  from h 0 l1 2 3 show ?thesis by blast
qed

text \<open>
  C4 as stated fails: on a corpus of two tools the records returned by category and by
  popularity have no \<open>final_score\<close> at all.
\<close>

theorem other_modes_final_score_counterexample:
  "map final_score (search_by_category sample_runtime (engine_of two_tools) [] 5) = [None, None] \<and>
   (\<exists>results. get_popular_tools sample_runtime (engine_of two_tools) 5 = Inr results \<and>
      map final_score results = [None])"
  by (simp add: by_category_two popular_two new_tool_def)

section \<open>Properties of the snapshot functions\<close>

lemma load_index_loaded:
  assumes "fs path = Some blob" "load blob = Some data" "snap_tools_data data = Some ts"
    "snap_embeddings data = Some (Some m)"
  shows "load_index load e0 path fs =
     (True, e0\<lparr>heap := (\<lambda>r. if next_ref e0 \<le> r \<and> r < next_ref e0 + length ts
                                 then ts ! (r - next_ref e0)
                                 else heap e0 r),
                 tools_data := [next_ref e0 ..< next_ref e0 + length ts],
                 next_ref := next_ref e0 + length ts,
                 embeddings := Some m, index := Some m\<rparr>)"
  using assms by (simp add: load_index_def set_tools_data_def Let_def)

lemma corpus_loaded:
  "corpus (e0\<lparr>heap := (\<lambda>r. if n0 \<le> r \<and> r < n0 + length ts then ts ! (r - n0) else h r),
               tools_data := [n0 ..< n0 + length ts], next_ref := k,
               embeddings := em, index := ix\<rparr>) = ts"
  by (rule nth_equalityI) (simp_all add: corpus_def)

text \<open>
  C9. Whenever unpickling returns the dict that was pickled, \<open>load_index\<close> on the path
  written by \<open>save_index\<close> succeeds and restores a corpus of the same length and content
  and the same embedding matrix, hence of the same shape (and rebuilds the index from it),
  into whatever engine it is called on. This holds for every corpus, the non-empty ones
  included.
\<close>

theorem save_load_roundtrip:
  assumes "load (dump \<lparr>snap_tools_data = Some (corpus e),
                        snap_embeddings = Some (embeddings e)\<rparr>) =
             Some \<lparr>snap_tools_data = Some (corpus e), snap_embeddings = Some (embeddings e)\<rparr>"
    and "embeddings e = Some m"
  shows "\<exists>e' m'. load_index load e0 path (save_index dump e path fs) = (True, e') \<and>
           corpus e' = corpus e \<and> length (tools_data e') = length (tools_data e) \<and>
           embeddings e' = Some m' \<and> shape m' = shape m \<and> index e' = Some m'"
proof -
  let ?data = "\<lparr>snap_tools_data = Some (corpus e), snap_embeddings = Some (embeddings e)\<rparr>"
  let ?fs = "save_index dump e path fs"
  have 1: "?fs path = Some (dump ?data)" by (simp add: save_index_def)
  have 3: "snap_embeddings ?data = Some (Some m)" using assms(2) by simp
  have ts: "snap_tools_data ?data = Some (corpus e)" by simp
  define e' where "e' =
     e0\<lparr>heap := (\<lambda>r. if next_ref e0 \<le> r \<and> r < next_ref e0 + length (corpus e)
                      then corpus e ! (r - next_ref e0) else heap e0 r),
        tools_data := [next_ref e0 ..< next_ref e0 + length (corpus e)],
        next_ref := next_ref e0 + length (corpus e),
        embeddings := Some m, index := Some m\<rparr>"
  have l: "load_index load e0 path ?fs = (True, e')"
    using load_index_loaded[of ?fs path "dump ?data" load ?data "corpus e" m e0,
        OF 1 assms(1) ts 3]
    unfolding e'_def .
  have c: "corpus e' = corpus e" unfolding e'_def by (rule corpus_loaded)
  have t: "length (tools_data e') = length (tools_data e)"
    unfolding e'_def by (simp add: corpus_def)
  have m: "embeddings e' = Some m" "index e' = Some m" unfolding e'_def by simp_all
  have "load_index load e0 path ?fs = (True, e') \<and>
           corpus e' = corpus e \<and> length (tools_data e') = length (tools_data e) \<and>
           embeddings e' = Some m \<and> shape m = shape m \<and> index e' = Some m"
    using l c t m by simp
  then show ?thesis by (intro exI)
qed

text \<open>
  C9 at a corpus of two tools with a 2 by 1 embedding matrix, loaded into an empty engine.
\<close>

theorem save_load_roundtrip_witness:
  "Some (id_dump \<lparr>snap_tools_data = Some (corpus (engine_of two_tools)),
                  snap_embeddings = Some (embeddings (engine_of two_tools))\<rparr>) =
     Some \<lparr>snap_tools_data = Some (corpus (engine_of two_tools)),
           snap_embeddings = Some (embeddings (engine_of two_tools))\<rparr> \<and>
   embeddings (engine_of two_tools) = Some \<lparr>nrows = 2, ncols = 1, cells = [1, 1]\<rparr> \<and>
   (\<exists>e' m'. load_index Some (engine_of []) [112]
               (save_index id_dump (engine_of two_tools) [112] (\<lambda>p. None)) = (True, e') \<and>
      corpus e' = two_tools \<and> length (tools_data e') = 2 \<and>
      embeddings e' = Some m' \<and> shape m' = (2, 1) \<and> index e' = Some m')"
proof -
  let ?e = "engine_of two_tools"
  let ?m = "\<lparr>nrows = 2, ncols = 1, cells = [1, 1]\<rparr> :: real ndarray"
  have 1: "Some (id_dump \<lparr>snap_tools_data = Some (corpus ?e),
                          snap_embeddings = Some (embeddings ?e)\<rparr>) =
     Some \<lparr>snap_tools_data = Some (corpus ?e), snap_embeddings = Some (embeddings ?e)\<rparr>"
    by (simp add: id_dump_def)
  have 2: "embeddings ?e = Some ?m"
    by (simp add: engine_of_def two_tools_def numeral_2_eq_2)
  from save_load_roundtrip[where load = Some and dump = id_dump and e = ?e and m = ?m
      and ?e0.0 = "engine_of []" and path = "[112]" and fs = "\<lambda>p. None", OF 1 2]
  have "\<exists>e' m'. load_index Some (engine_of []) [112]
               (save_index id_dump ?e [112] (\<lambda>p. None)) = (True, e') \<and>
      corpus e' = corpus ?e \<and> length (tools_data e') = length (tools_data ?e) \<and>
      embeddings e' = Some m' \<and> shape m' = shape ?m \<and> index e' = Some m'" .
  then have "\<exists>e' m'. load_index Some (engine_of []) [112]
               (save_index id_dump ?e [112] (\<lambda>p. None)) = (True, e') \<and>
      corpus e' = two_tools \<and> length (tools_data e') = 2 \<and>
      embeddings e' = Some m' \<and> shape m' = (2, 1) \<and> index e' = Some m'"
    by (simp add: shape_def two_tools_def numeral_2_eq_2)
  with 1 2 show ?thesis by blast
qed

end
